theory Spec2Isabelle
  imports Complex_Main "HOL-Library.Word" "HOL-Library.Signed_Division" "HOL-Library.Log_Nat"
begin

section \<open>Machine integers and constants\<close>

text \<open>
  The program is C.  Its \<open>int\<close> is modelled as a 32-bit word and its \<open>long\<close> as a
  64-bit word (the LP64 data model), both read as two's complement numbers by \<open>sint\<close>
  and compared with the signed orders \<open>\<le>s\<close> and \<open><s\<close>.  Arithmetic on words wraps
  around, which is what the compiled program does where ISO C leaves signed overflow
  undefined.
\<close>

type_synonym c_int = "32 word"
type_synonym c_long = "64 word"

definition LANES :: nat where
  "LANES = 4"

definition MAX_GREEN :: c_int where
  "MAX_GREEN = 40"

definition BASE_GREEN :: c_int where
  "BASE_GREEN = 5"

definition VEHICLE_PASS_PER_SEC :: c_int where
  "VEHICLE_PASS_PER_SEC = 1"

definition EXIT_FAILURE :: c_int where
  "EXIT_FAILURE = 1"

definition INT_MAX :: int where
  "INT_MAX = 2147483647"

definition LONG_MAX :: int where
  "LONG_MAX = 9223372036854775807"

text \<open>C's remainder \<open>a % b\<close> on \<open>int\<close>: the quotient is truncated towards zero.\<close>

definition c_rem :: "c_int \<Rightarrow> c_int \<Rightarrow> c_int" where
  "c_rem a b = word_of_int (sint a smod sint b)"

section \<open>Data model\<close>

record Lane =
  vehicles :: c_int
  total_wait_secs :: c_long
  vehicles_served :: c_long

text \<open>
  The \<open>lanes\<close> pointer of the C struct owns an array of \<open>LANES\<close> entries; it is a list
  here, and the theorems assume its length is \<open>LANES\<close>, as \<open>create_intersection\<close>
  allocates it.
\<close>

record Intersection =
  name :: string
  lanes :: "Lane list"
  cycles :: c_int

section \<open>Green-time policy\<close>

definition calculate_green_time :: "c_int \<Rightarrow> c_int" where
  "calculate_green_time vehicles_waiting =
     (let t = BASE_GREEN + 2 * vehicles_waiting
      in if MAX_GREEN <s t then MAX_GREEN else t)"

text \<open>
  The formula as the specification words it, on mathematical integers:
  \<open>BASE_GREEN + 2 * waiting\<close> clamped to \<open>[BASE_GREEN, MAX_GREEN]\<close>.
\<close>

definition green_time_spec :: "int \<Rightarrow> int" where
  "green_time_spec w = max 5 (min 40 (5 + 2 * w))"

section \<open>Creating an intersection\<close>

text \<open>
  \<open>create_intersection\<close> calls \<open>malloc\<close> twice and exits with \<open>EXIT_FAILURE\<close> when
  either call fails; the two booleans say whether the calls succeed.  The name is
  copied into a buffer of 64 characters, so at most 63 of them are kept.
\<close>

definition create_intersection :: "bool \<Rightarrow> bool \<Rightarrow> string \<Rightarrow> c_int + Intersection" where
  "create_intersection it_ok lanes_ok nm =
     (if \<not> it_ok then Inl EXIT_FAILURE
      else if \<not> lanes_ok then Inl EXIT_FAILURE
      else Inr \<lparr>name = take 63 nm,
                lanes = replicate LANES
                          \<lparr>vehicles = 0, total_wait_secs = 0, vehicles_served = 0\<rparr>,
                cycles = 0\<rparr>)"

section \<open>Cycle executor\<close>

text \<open>
  \<open>run_one_cycle\<close> is three nested loops.  The functions below are their bodies, from
  the inside out.  One iteration of the per-second loop first lets a vehicle of the
  green lane pass (\<open>serve_tick\<close>, the conditional on \<open>lanes[lane_idx].vehicles > 0\<close>),
  then visits every lane \<open>j\<close> in order and charges the waiting ones (\<open>wait_tick\<close>, the
  body of the loop over \<open>j\<close>); \<open>tick\<close> is the two together.  The \<open>int\<close> count of a
  lane is converted to \<open>long\<close> when it is added to \<open>total_wait_secs\<close>.
\<close>

definition serve_tick :: "nat \<Rightarrow> Lane list \<Rightarrow> Lane list" where
  "serve_tick lane_idx ls =
     (if 0 <s vehicles (ls ! lane_idx) then
        let l = ls ! lane_idx;
            l = l\<lparr>vehicles := vehicles l - VEHICLE_PASS_PER_SEC\<rparr>;
            l = (if vehicles l <s 0 then l\<lparr>vehicles := 0\<rparr> else l);
            l = l\<lparr>vehicles_served := vehicles_served l + scast VEHICLE_PASS_PER_SEC\<rparr>
        in ls[lane_idx := l]
      else ls)"

definition wait_tick :: "nat \<Rightarrow> nat \<Rightarrow> Lane list \<Rightarrow> Lane list" where
  "wait_tick lane_idx j ls =
     (if j = lane_idx then ls
      else if 0 <s vehicles (ls ! j)
           then ls[j := (ls ! j)\<lparr>total_wait_secs :=
                          total_wait_secs (ls ! j) + scast (vehicles (ls ! j))\<rparr>]
           else ls)"

definition tick :: "nat \<Rightarrow> Lane list \<Rightarrow> Lane list" where
  "tick lane_idx ls = fold (wait_tick lane_idx) [0..<LANES] (serve_tick lane_idx ls)"

text \<open>
  The number of seconds of a green phase: \<open>calculate_green_time\<close>, raised to
  \<open>BASE_GREEN\<close> by the caller when it is smaller.
\<close>

definition green_seconds :: "c_int \<Rightarrow> c_int" where
  "green_seconds waiting =
     (let green = calculate_green_time waiting
      in if green <s BASE_GREEN then BASE_GREEN else green)"

text \<open>
  One iteration of the lane loop.  The loop \<open>for (sec = 0; sec < green; ++sec)\<close>
  runs its body \<open>green\<close> times when \<open>green\<close> is positive and not at all otherwise;
  the body does not read \<open>sec\<close>.
\<close>

definition green_phase :: "nat \<Rightarrow> Lane list \<Rightarrow> Lane list" where
  "green_phase lane_idx ls =
     (let waiting = vehicles (ls ! lane_idx);
          green = green_seconds waiting
      in fold (\<lambda>sec. tick lane_idx) [0..<nat (sint green)] ls)"

text \<open>The argument is a pointer: \<open>None\<close> is the null pointer, on which the function returns at once.\<close>

fun run_one_cycle :: "Intersection option \<Rightarrow> Intersection option" where
  "run_one_cycle None = None"
| "run_one_cycle (Some it) =
     Some (it\<lparr>lanes := fold green_phase [0..<LANES] (lanes it),
               cycles := cycles it + 1\<rparr>)"

section \<open>Arrival injector\<close>

text \<open>
  \<open>rand i\<close> is the value that the \<open>i\<close>-th call of the C library's \<open>rand()\<close> returns
  during this invocation; the library promises a value between 0 and \<open>RAND_MAX\<close>.
\<close>

definition random_arrival_between_cycles :: "(nat \<Rightarrow> c_int) \<Rightarrow> Intersection \<Rightarrow> Intersection" where
  "random_arrival_between_cycles rand it =
     it\<lparr>lanes :=
          fold (\<lambda>i ls. let arrival = c_rem (rand i) 4
                       in ls[i := (ls ! i)\<lparr>vehicles := vehicles (ls ! i) + arrival\<rparr>])
               [0..<LANES] (lanes it)\<rparr>"

section \<open>Reading the initial conditions\<close>

text \<open>
  The standard input is the list of the outcomes of the successive \<open>scanf("%d", ...)\<close>
  calls: \<open>Some v\<close> when an integer \<open>v\<close> is read, \<open>None\<close> when the conversion fails.
  At the end of the input the call fails too.
\<close>

fun scanf_d :: "c_int option list \<Rightarrow> c_int option \<times> c_int option list" where
  "scanf_d [] = (None, [])"
| "scanf_d (x # xs) = (x, xs)"

text \<open>
  The loop of \<open>input_vehicle_counts\<close> over the lane indices.  A failed conversion
  exits the process with \<open>EXIT_FAILURE\<close>; the result then carries the status and the
  intersection as it was at that moment.
\<close>

fun input_loop ::
  "nat list \<Rightarrow> Intersection \<Rightarrow> c_int option list
     \<Rightarrow> (c_int \<times> Intersection) + (Intersection \<times> c_int option list)" where
  "input_loop [] it inp = Inr (it, inp)"
| "input_loop (i # idxs) it inp =
     (case scanf_d inp of
        (None, inp') \<Rightarrow> Inl (EXIT_FAILURE, it)
      | (Some v, inp') \<Rightarrow>
          let v = (if v <s 0 then 0 else v)
          in input_loop idxs
               (it\<lparr>lanes := (lanes it)[i := (lanes it ! i)\<lparr>vehicles := v\<rparr>]\<rparr>) inp')"

definition input_vehicle_counts ::
  "Intersection \<Rightarrow> c_int option list
     \<Rightarrow> (c_int \<times> Intersection) + (Intersection \<times> c_int option list)" where
  "input_vehicle_counts it inp = input_loop [0..<LANES] it inp"

section \<open>The driver\<close>

record Env =
  intersection_alloc_ok :: bool
  lanes_alloc_ok :: bool
  stdin :: "c_int option list"
  rand_calls :: "nat \<Rightarrow> c_int"

text \<open>
  What a run leaves behind: the exit status, and the intersection as it was when the
  process exited or released it (\<open>None\<close> when it was never created).  What the
  program prints, and the record that \<open>save_statistics\<close> appends to its file, are not
  part of \<open>main\<close> here: they do not change the intersection or the exit status.
  The numbers that \<open>save_statistics\<close> computes are modelled on their own below.
\<close>

record Outcome =
  status :: c_int
  state :: "Intersection option"

text \<open>
  Cycle \<open>c\<close> of the main loop: one cycle, then the arrivals, which draw the random
  numbers \<open>4 * c\<close> to \<open>4 * c + 3\<close> of the run.
\<close>

definition simulate_cycle :: "(nat \<Rightarrow> c_int) \<Rightarrow> nat \<Rightarrow> Intersection \<Rightarrow> Intersection" where
  "simulate_cycle rand c it =
     (case run_one_cycle (Some it) of
        None \<Rightarrow> it
      | Some it' \<Rightarrow> random_arrival_between_cycles (\<lambda>i. rand (LANES * c + i)) it')"

definition main :: "Env \<Rightarrow> Outcome" where
  "main env =
     (case create_intersection (intersection_alloc_ok env) (lanes_alloc_ok env) ''Main_1'' of
        Inl st \<Rightarrow> \<lparr>status = st, state = None\<rparr>
      | Inr it \<Rightarrow>
          (case input_vehicle_counts it (stdin env) of
             Inl (st, it') \<Rightarrow> \<lparr>status = st, state = Some it'\<rparr>
           | Inr (it', inp) \<Rightarrow>
               (case fst (scanf_d inp) of
                  None \<Rightarrow> \<lparr>status = 1, state = Some it'\<rparr>
                | Some cycles_to_run \<Rightarrow>
                    if cycles_to_run \<le>s 0 then \<lparr>status = 1, state = Some it'\<rparr>
                    else \<lparr>status = 0,
                          state = Some (fold (simulate_cycle (rand_calls env))
                                             [0..<nat (sint cycles_to_run)] it')\<rparr>)))"

section \<open>Statistics aggregator\<close>

text \<open>
  The average is a C \<open>double\<close>.  A finite double is \<open>m * 2 ^ e\<close> for integers \<open>m\<close> and
  \<open>e\<close> with \<open>\<bar>m\<bar> \<le> 2 ^ 53\<close>, and is modelled as the pair \<open>(m, e)\<close>; \<open>(0, 0)\<close> is
  \<open>0.0\<close>.  Conversions and divisions round to the nearest double, ties to the even
  significand (IEEE 754 binary64 in the default rounding mode).  The operands here are
  64-bit integers, so every quotient lies between \<open>2 ^ -63\<close> and \<open>2 ^ 64\<close> in magnitude,
  well inside the range of normal doubles: neither overflow nor gradual underflow
  occurs.
\<close>

type_synonym c_double = "int \<times> int"

definition double_value :: "c_double \<Rightarrow> real" where
  "double_value x =
     (case x of (m, e) \<Rightarrow>
        if 0 \<le> e then of_int (m * 2 ^ nat e) else of_int m / 2 ^ nat (- e))"

text \<open>The integer nearest to \<open>n / d\<close> for \<open>d > 0\<close>, the even one of two nearest.\<close>

definition round_half_even :: "int \<Rightarrow> int \<Rightarrow> int" where
  "round_half_even n d =
     (let q = n div d; r = n mod d
      in if 2 * r < d then q
         else if d < 2 * r then q + 1
         else if even q then q else q + 1)"

text \<open>\<open>\<lfloor>log\<^sub>2 (n / d)\<rfloor>\<close> for positive \<open>n\<close> and \<open>d\<close>, from the bit lengths of the two.\<close>

definition floor_log2 :: "int \<Rightarrow> int \<Rightarrow> int" where
  "floor_log2 n d =
     (let k = bitlen n - bitlen d
      in if (if 0 \<le> k then d * 2 ^ nat k \<le> n else d \<le> n * 2 ^ nat (- k)) then k else k - 1)"

text \<open>
  The double nearest to \<open>n / d\<close> for \<open>d > 0\<close>: the exponent \<open>e\<close> places the quotient's
  leading bit at position 52, and the significand is the quotient divided by \<open>2 ^ e\<close>
  and rounded.
\<close>

definition round_to_double :: "int \<Rightarrow> int \<Rightarrow> c_double" where
  "round_to_double n d =
     (if n = 0 then (0, 0)
      else let e = floor_log2 \<bar>n\<bar> d - 52
           in (if 0 \<le> e then round_half_even n (d * 2 ^ nat e)
               else round_half_even (n * 2 ^ nat (- e)) d, e))"

text \<open>
  The conversion \<open>(double) x\<close> of a \<open>long\<close>.  Its value is an integer: \<open>x\<close> itself
  below \<open>2 ^ 53\<close> in magnitude, and \<open>x\<close> rounded to 53 significant bits above.
\<close>

definition long_to_double :: "c_long \<Rightarrow> int" where
  "long_to_double x =
     (let n = sint x
      in if \<bar>n\<bar> < 2 ^ 53 then n
         else let e = nat (bitlen \<bar>n\<bar> - 53) in round_half_even n (2 ^ e) * 2 ^ e)"

record Statistics =
  cycles_run :: c_int
  total_served :: c_long
  total_wait_secs_sum :: c_long
  avg_wait_per_vehicle :: c_double

text \<open>
  What \<open>save_statistics\<close> computes and writes.  The boolean says whether \<open>fopen\<close>
  succeeds; when it fails the function returns before computing anything.  The loop
  adds up both totals in \<open>long\<close> arithmetic; the local \<open>total_wait_secs\<close> of the C
  function is the field \<open>total_wait_secs_sum\<close>.  In the division the left operand is
  cast to \<open>double\<close> and the right one is converted with it.
\<close>

definition save_statistics :: "bool \<Rightarrow> Intersection \<Rightarrow> Statistics option" where
  "save_statistics file_ok it =
     (if \<not> file_ok then None
      else
        let (served, wait) =
              fold (\<lambda>i (served, wait).
                      (served + vehicles_served (lanes it ! i),
                       wait + total_wait_secs (lanes it ! i)))
                   [0..<LANES] (0, 0);
            avg = (if 0 <s served
                   then round_to_double (long_to_double wait) (long_to_double served)
                   else (0, 0))
        in Some \<lparr>cycles_run = cycles it, total_served = served,
                  total_wait_secs_sum = wait, avg_wait_per_vehicle = avg\<rparr>)"

section \<open>The states of a cycle\<close>

text \<open>
  The states that \<open>run_one_cycle\<close> passes through on an intersection: the state before
  the lane loop, the state after each of its \<open>LANES\<close> iterations, and last the state
  after \<open>it->cycles++\<close>, the statement that follows the loop.
\<close>

definition run_one_cycle_states :: "Intersection \<Rightarrow> Intersection list" where
  "run_one_cycle_states it =
     (let after = (\<lambda>k. it\<lparr>lanes := fold green_phase [0..<k] (lanes it)\<rparr>)
      in map after [0..<Suc LANES] @ [(after LANES)\<lparr>cycles := cycles (after LANES) + 1\<rparr>])"

text \<open>
  The number of vehicles that leave a lane holding \<open>v\<close> during its green phase: one
  for each second of the phase while vehicles wait.
\<close>

definition phase_departures :: "c_int \<Rightarrow> int" where
  "phase_departures v = min (max (sint v) 0) (sint (green_seconds v))"

section \<open>Sequences of operations\<close>

text \<open>
  The two operations that change an intersection after it is seeded, and a run of
  them.  \<open>Inject_arrivals\<close> carries the values that \<open>rand()\<close> returns to it.
\<close>

datatype operation = Run_cycle | Inject_arrivals "nat \<Rightarrow> c_int"

fun apply_operation :: "operation \<Rightarrow> Intersection \<Rightarrow> Intersection" where
  "apply_operation Run_cycle it = (case run_one_cycle (Some it) of None \<Rightarrow> it | Some it' \<Rightarrow> it')"
| "apply_operation (Inject_arrivals rand) it = random_arrival_between_cycles rand it"

text \<open>
  Bounds on the state before an operation under which none of its additions overflows.
  A cycle serves at most 40 vehicles of a lane and charges a lane for at most 120
  seconds, its count never above the one it starts with; the arrivals add at most 3
  vehicles to a lane and need the non-negative draws that \<open>rand()\<close> promises.
\<close>

fun has_room :: "operation \<Rightarrow> Intersection \<Rightarrow> bool" where
  "has_room Run_cycle it =
     list_all (\<lambda>l. sint (vehicles_served l) \<le> LONG_MAX - 40 \<and>
                    sint (total_wait_secs l) + 120 * sint (vehicles l) \<le> LONG_MAX) (lanes it)"
| "has_room (Inject_arrivals rand) it =
     (list_all (\<lambda>i. 0 \<le>s rand i) [0..<LANES] \<and>
      list_all (\<lambda>l. sint (vehicles l) \<le> INT_MAX - 3) (lanes it))"

fun no_overflow :: "operation list \<Rightarrow> Intersection \<Rightarrow> bool" where
  "no_overflow [] it = True"
| "no_overflow (x # xs) it = (has_room x it \<and> no_overflow xs (apply_operation x it))"

section \<open>One lane at a time\<close>

text \<open>
  A proof device, not a function of the program: what one second of a green phase does
  to a single lane, \<open>green\<close> telling whether the lane is the one that has the green
  light.  Lemma \<open>tick_lanes\<close> below proves that the program's \<open>tick\<close> does exactly
  this to every lane.
\<close>

definition lane_tick :: "bool \<Rightarrow> Lane \<Rightarrow> Lane" where
  "lane_tick green l =
     (if 0 <s vehicles l then
        (if green
         then l\<lparr>vehicles := (if vehicles l - 1 <s 0 then 0 else vehicles l - 1),
                vehicles_served := vehicles_served l + 1\<rparr>
         else l\<lparr>total_wait_secs := total_wait_secs l + scast (vehicles l)\<rparr>)
      else l)"

text \<open>
  Also a proof device: lane \<open>l\<close> is a later state of lane \<open>l0\<close> within one cycle,
  after \<open>a\<close> green phases of other lanes and \<open>b\<close> of its own.
\<close>

definition lane_within :: "int \<Rightarrow> int \<Rightarrow> Lane \<Rightarrow> Lane \<Rightarrow> bool" where
  "lane_within a b l0 l \<longleftrightarrow>
     0 \<le> sint (vehicles l) \<and> sint (vehicles l) \<le> sint (vehicles l0) \<and>
     sint (vehicles_served l0) \<le> sint (vehicles_served l) \<and>
     sint (vehicles_served l) \<le> sint (vehicles_served l0) + 40 * b \<and>
     sint (total_wait_secs l0) \<le> sint (total_wait_secs l) \<and>
     sint (total_wait_secs l) \<le> sint (total_wait_secs l0) + 40 * (a * sint (vehicles l0))"

section \<open>Green-time policy: properties\<close>

lemma sint_2_times:
  "- 1073741824 \<le> sint (w :: c_int) \<Longrightarrow> sint w \<le> 1073741823 \<Longrightarrow> sint (2 * w) = 2 * sint w"
  by (simp add: sint_word_ariths signed_take_bit_int_eq_self)

lemma sint_green_raw:
  assumes "- 1073741824 \<le> sint (w :: c_int)" "sint w \<le> 1073741821"
  shows "sint (5 + 2 * w) = 5 + 2 * sint w"
proof -
  have "sint (2 * w) = 2 * sint w"
    using assms by (simp add: sint_2_times)
  then show ?thesis
    using assms by (simp add: sint_word_ariths signed_take_bit_int_eq_self)
qed

lemma sint_calculate_green_time:
  "- 1073741824 \<le> sint w \<Longrightarrow> sint w \<le> 1073741821 \<Longrightarrow>
     sint (calculate_green_time w) = min 40 (5 + 2 * sint w)"
  by (simp add: calculate_green_time_def Let_def sint_green_raw word_sless_alt MAX_GREEN_def
      BASE_GREEN_def)

lemma green_seconds_range:
  "5 \<le> sint (green_seconds w) \<and> sint (green_seconds w) \<le> 40"
  by (simp add: green_seconds_def calculate_green_time_def Let_def BASE_GREEN_def MAX_GREEN_def
      word_sless_alt)

lemma green_seconds_eq:
  "0 \<le>s w \<Longrightarrow> w \<le>s 1073741821 \<Longrightarrow> green_seconds w = calculate_green_time w"
proof -
  assume "0 \<le>s w" "w \<le>s 1073741821"
  then have "sint (calculate_green_time w) = min 40 (5 + 2 * sint w)" "0 \<le> sint w"
    by (simp_all add: word_sle_eq sint_calculate_green_time)
  then have "\<not> calculate_green_time w <s BASE_GREEN"
    by (simp add: word_sless_alt BASE_GREEN_def)
  then show ?thesis
    by (simp add: green_seconds_def Let_def)
qed

text \<open>
  C3, as the code has it.  The result of \<open>calculate_green_time\<close> never exceeds
  \<open>MAX_GREEN\<close>.  For a waiting count between 0 and 1073741821 it is at least
  \<open>BASE_GREEN\<close>, and on the inputs from -1073741824 to 1073741821, where
  \<open>5 + 2 * w\<close> fits an \<open>int\<close>, the function is monotonically non-decreasing.
\<close>

theorem calculate_green_time_range_mono:
  "calculate_green_time w \<le>s MAX_GREEN \<and>
   (0 \<le>s w \<and> w \<le>s 1073741821 \<longrightarrow> BASE_GREEN \<le>s calculate_green_time w) \<and>
   (- 1073741824 \<le>s w1 \<and> w1 \<le>s w2 \<and> w2 \<le>s 1073741821 \<longrightarrow>
      calculate_green_time w1 \<le>s calculate_green_time w2)"
proof (intro conjI impI)
  show "calculate_green_time w \<le>s MAX_GREEN"
    by (simp add: calculate_green_time_def Let_def MAX_GREEN_def word_sless_alt word_sle_eq)
next
  assume "0 \<le>s w \<and> w \<le>s 1073741821"
  then show "BASE_GREEN \<le>s calculate_green_time w"
    by (simp add: word_sle_eq sint_calculate_green_time BASE_GREEN_def)
next
  assume "- 1073741824 \<le>s w1 \<and> w1 \<le>s w2 \<and> w2 \<le>s 1073741821"
  then have "- 1073741824 \<le> sint w1" "sint w1 \<le> sint w2" "sint w2 \<le> 1073741821"
    by (simp_all add: word_sle_eq)
  then show "calculate_green_time w1 \<le>s calculate_green_time w2"
    by (simp add: word_sle_eq sint_calculate_green_time)
qed

theorem calculate_green_time_range_mono_witness:
  "(0 \<le>s (3 :: c_int) \<and> (3 :: c_int) \<le>s 1073741821) \<and>
   (- 1073741824 \<le>s (- 2 :: c_int) \<and> (- 2 :: c_int) \<le>s 10 \<and> (10 :: c_int) \<le>s 1073741821) \<and>
   calculate_green_time 3 \<le>s MAX_GREEN \<and>
   BASE_GREEN \<le>s calculate_green_time 3 \<and>
   calculate_green_time (- 2) \<le>s calculate_green_time 10"
  using calculate_green_time_range_mono [of 3 "- 2" 10] by (simp add: word_sle_eq)

text \<open>
  C3 as stated fails: the function has an upper cap only, so a negative count gives
  less than \<open>BASE_GREEN\<close>; \<open>calculate_green_time (-1)\<close> is 3.  The lower clamp is in
  the caller, \<open>run_one_cycle\<close>.  Nor is the function monotone on all non-negative
  counts: at 1073741822 the sum \<open>5 + 2 * w\<close> wraps to a negative number, below the
  result for 0.
\<close>

theorem calculate_green_time_below_base:
  "calculate_green_time (- 1) = 3 \<and>
   \<not> (BASE_GREEN \<le>s calculate_green_time (- 1) \<and> calculate_green_time (- 1) \<le>s MAX_GREEN) \<and>
   \<not> calculate_green_time 0 \<le>s calculate_green_time 1073741822"
  by (simp add: calculate_green_time_def BASE_GREEN_def MAX_GREEN_def)

text \<open>
  C4, as the code has it.  For every waiting count \<open>w\<close> from 0 to 1073741821 the
  result is \<open>BASE_GREEN + 2 * w\<close> clamped to \<open>[BASE_GREEN, MAX_GREEN]\<close>, the formula of
  the specification on mathematical integers; the results for 0, 10 and 20 are 5, 25
  and 40.
\<close>

theorem calculate_green_time_formula:
  "(0 \<le>s w \<and> w \<le>s 1073741821 \<longrightarrow> sint (calculate_green_time w) = green_time_spec (sint w)) \<and>
   calculate_green_time 0 = 5 \<and> calculate_green_time 10 = 25 \<and> calculate_green_time 20 = 40"
proof (intro conjI impI)
  assume "0 \<le>s w \<and> w \<le>s 1073741821"
  then have "0 \<le> sint w" "sint w \<le> 1073741821"
    by (simp_all add: word_sle_eq)
  then show "sint (calculate_green_time w) = green_time_spec (sint w)"
    by (simp add: sint_calculate_green_time green_time_spec_def)
qed (simp_all add: calculate_green_time_def BASE_GREEN_def MAX_GREEN_def)

theorem calculate_green_time_formula_witness:
  "(0 \<le>s (7 :: c_int) \<and> (7 :: c_int) \<le>s 1073741821) \<and>
   sint (calculate_green_time 7) = green_time_spec (sint (7 :: c_int)) \<and>
   green_time_spec (sint (7 :: c_int)) = 19"
  using calculate_green_time_formula [of 7] by (simp add: green_time_spec_def word_sle_eq)

text \<open>
  C4 as stated, for every non-negative \<open>w\<close>, fails from 1073741822 on: \<open>5 + 2 * w\<close>
  no longer fits 32 bits, the sum wraps to a negative number, and the cap does not
  apply.
\<close>

theorem calculate_green_time_overflow:
  "sint (calculate_green_time 1073741822) \<noteq> green_time_spec (sint (1073741822 :: c_int))"
  by (simp add: calculate_green_time_def BASE_GREEN_def MAX_GREEN_def green_time_spec_def)

section \<open>The lanes are independent within a phase\<close>

lemma upt_LANES: "[0..<LANES] = [0, 1, 2, 3]"
  by (simp add: LANES_def upt_rec)

lemma length4E:
  assumes "length ls = LANES"
  obtains a b c d where "ls = [a, b, c, d]"
  using assms by (auto simp: LANES_def length_Suc_conv numeral_eq_Suc)

lemma lt_LANES: "i < LANES \<longleftrightarrow> i = 0 \<or> i = 1 \<or> i = 2 \<or> i = 3"
  by (auto simp: LANES_def)

lemma tick_lanes:
  assumes "length ls = LANES" "i < LANES"
  shows "tick i ls = map (\<lambda>j. lane_tick (j = i) (ls ! j)) [0..<LANES]"
proof -
  obtain a b c d where ls: "ls = [a, b, c, d]"
    using assms(1) by (rule length4E)
  from assms(2) consider "i = 0" | "i = 1" | "i = 2" | "i = 3"
    by (auto simp: lt_LANES)
  then show ?thesis
    by cases
      (simp_all add: ls tick_def upt_LANES serve_tick_def wait_tick_def lane_tick_def
        VEHICLE_PASS_PER_SEC_def Let_def)
qed

lemma fold_const_funpow: "fold (\<lambda>_. f) [0..<n] = f ^^ n"
  by (induction n) (simp_all add: fun_eq_iff)

lemma map_lanes_nth:
  "j < LANES \<Longrightarrow> map f [0..<LANES] ! j = f j"
  by (simp add: LANES_def)

lemma funpow_tick_lanes:
  assumes "length ls = LANES" "i < LANES"
  shows "(tick i ^^ n) ls = map (\<lambda>j. (lane_tick (j = i) ^^ n) (ls ! j)) [0..<LANES]"
proof (induction n)
  case 0
  show ?case using assms(1) by (simp add: list_eq_iff_nth_eq)
next
  case (Suc n)
  have len: "length ((tick i ^^ n) ls) = LANES"
    by (simp add: Suc.IH)
  have "(tick i ^^ Suc n) ls = tick i ((tick i ^^ n) ls)"
    by simp
  also have "\<dots> = map (\<lambda>j. lane_tick (j = i) ((tick i ^^ n) ls ! j)) [0..<LANES]"
    by (rule tick_lanes [OF len assms(2)])
  also have "\<dots> = map (\<lambda>j. (lane_tick (j = i) ^^ Suc n) (ls ! j)) [0..<LANES]"
    by (rule map_cong) (simp_all add: Suc.IH map_lanes_nth)
  finally show ?case .
qed

lemma green_phase_lanes:
  assumes "length ls = LANES" "i < LANES"
  shows "green_phase i ls =
           map (\<lambda>j. (lane_tick (j = i) ^^ nat (sint (green_seconds (vehicles (ls ! i))))) (ls ! j))
               [0..<LANES]"
  by (simp add: green_phase_def Let_def fold_const_funpow funpow_tick_lanes [OF assms])


lemma sint_pred:
  "0 <s (v :: c_int) \<Longrightarrow> sint (v - 1) = sint v - 1"
  using sint_range_size [of v]
  by (simp add: word_sless_alt sint_word_ariths signed_take_bit_int_eq_self word_size)

lemma lane_tick_green_pos:
  "0 <s vehicles l \<Longrightarrow>
     lane_tick True l = l\<lparr>vehicles := vehicles l - 1, vehicles_served := vehicles_served l + 1\<rparr>"
  by (simp add: lane_tick_def word_sless_alt sint_pred)

lemma lane_tick_stop:
  "\<not> 0 <s vehicles l \<Longrightarrow> lane_tick g l = l"
  by (simp add: lane_tick_def)

lemma lane_tick_idle_pos:
  "0 <s vehicles l \<Longrightarrow>
     lane_tick False l = l\<lparr>total_wait_secs := total_wait_secs l + scast (vehicles l)\<rparr>"
  by (simp add: lane_tick_def)

lemma funpow_lane_tick_stop:
  "\<not> 0 <s vehicles l \<Longrightarrow> (lane_tick g ^^ n) l = l"
  by (induction n) (simp_all add: lane_tick_stop)

lemma green_vehicles:
  "0 \<le>s vehicles l \<Longrightarrow>
     sint (vehicles ((lane_tick True ^^ n) l)) = max (sint (vehicles l) - int n) 0"
proof (induction n arbitrary: l)
  case 0
  then show ?case by (simp add: word_sle_eq)
next
  case (Suc n)
  show ?case
  proof (cases "0 <s vehicles l")
    case True
    let ?l = "lane_tick True l"
    have v: "sint (vehicles ?l) = sint (vehicles l) - 1"
      using True by (simp add: lane_tick_green_pos sint_pred)
    then have "0 \<le>s vehicles ?l"
      using True by (simp add: word_sle_eq word_sless_alt)
    from Suc.IH [OF this] v show ?thesis
      by (simp add: funpow_swap1)
  next
    case False
    with Suc.prems show ?thesis
      by (simp add: funpow_lane_tick_stop word_sle_eq word_sless_alt del: funpow.simps)
  qed
qed

lemma green_served:
  "0 \<le>s vehicles l \<Longrightarrow>
     vehicles_served ((lane_tick True ^^ n) l) =
       vehicles_served l + word_of_int (min (sint (vehicles l)) (int n))"
proof (induction n arbitrary: l)
  case 0
  then show ?case by (simp add: word_sle_eq min_def)
next
  case (Suc n)
  show ?case
  proof (cases "0 <s vehicles l")
    case True
    let ?l = "lane_tick True l"
    have v: "sint (vehicles ?l) = sint (vehicles l) - 1"
      using True by (simp add: lane_tick_green_pos sint_pred)
    then have "0 \<le>s vehicles ?l"
      using True by (simp add: word_sle_eq word_sless_alt)
    from Suc.IH [OF this]
    have "vehicles_served ((lane_tick True ^^ Suc n) l) =
            vehicles_served l + 1 + word_of_int (min (sint (vehicles l) - 1) (int n))"
      using True by (simp add: funpow_swap1 lane_tick_green_pos sint_pred)
    also have "\<dots> = vehicles_served l + word_of_int (1 + min (sint (vehicles l) - 1) (int n))"
      by simp
    also have "1 + min (sint (vehicles l) - 1) (int n) = min (sint (vehicles l)) (int (Suc n))"
      by simp
    finally show ?thesis .
  next
    case False
    with Suc.prems have "sint (vehicles l) = 0"
      by (simp add: word_sle_eq word_sless_alt)
    with False show ?thesis
      by (simp add: funpow_lane_tick_stop del: funpow.simps)
  qed
qed

lemma green_wait:
  "total_wait_secs ((lane_tick True ^^ n) l) = total_wait_secs l"
proof (induction n arbitrary: l)
  case 0
  show ?case by simp
next
  case (Suc n)
  have "total_wait_secs (lane_tick True l) = total_wait_secs l"
    by (simp add: lane_tick_def)
  with Suc.IH [of "lane_tick True l"] show ?case
    by (simp add: funpow_swap1)
qed

lemma lane_tick_idle_fields:
  "vehicles (lane_tick False l) = vehicles l"
  "vehicles_served (lane_tick False l) = vehicles_served l"
  "total_wait_secs (lane_tick False l) =
     total_wait_secs l + (if 0 <s vehicles l then scast (vehicles l) else 0)"
  by (simp_all add: lane_tick_def)

lemma idle_vehicles:
  "vehicles ((lane_tick False ^^ n) l) = vehicles l"
  by (induction n) (simp_all add: lane_tick_idle_fields)

lemma idle_served:
  "vehicles_served ((lane_tick False ^^ n) l) = vehicles_served l"
  by (induction n) (simp_all add: lane_tick_idle_fields)

lemma idle_wait:
  "total_wait_secs ((lane_tick False ^^ n) l) =
     total_wait_secs l + (if 0 <s vehicles l then of_nat n * scast (vehicles l) else 0)"
  by (induction n) (simp_all add: lane_tick_idle_fields idle_vehicles algebra_simps)

section \<open>A worked cycle\<close>

text \<open>
  C1.  From the lanes \<open>[2, 0, 5, 1]\<close> with all accumulators and the cycle counter zero:
  lane 0 gets 9 seconds of green; after 2 of them it is empty and has served 2
  vehicles; at the end of its phase lane 1 has accrued 0 wait-seconds, lane 2 has
  accrued 45 and lane 3 has accrued 9; and the complete cycle ends with no vehicle
  waiting, \<open>[2, 0, 5, 1]\<close> vehicles served, \<open>[0, 0, 70, 29]\<close> wait-seconds and the
  cycle counter at 1.
\<close>

theorem worked_cycle:
  "calculate_green_time 2 = 9 \<and> green_seconds 2 = 9 \<and>
   fold (\<lambda>sec. tick 0) [0..<2]
     [\<lparr>vehicles = 2, total_wait_secs = 0, vehicles_served = 0\<rparr>,
      \<lparr>vehicles = 0, total_wait_secs = 0, vehicles_served = 0\<rparr>,
      \<lparr>vehicles = 5, total_wait_secs = 0, vehicles_served = 0\<rparr>,
      \<lparr>vehicles = 1, total_wait_secs = 0, vehicles_served = 0\<rparr>] ! 0
     = \<lparr>vehicles = 0, total_wait_secs = 0, vehicles_served = 2\<rparr> \<and>
   green_phase 0
     [\<lparr>vehicles = 2, total_wait_secs = 0, vehicles_served = 0\<rparr>,
      \<lparr>vehicles = 0, total_wait_secs = 0, vehicles_served = 0\<rparr>,
      \<lparr>vehicles = 5, total_wait_secs = 0, vehicles_served = 0\<rparr>,
      \<lparr>vehicles = 1, total_wait_secs = 0, vehicles_served = 0\<rparr>]
     = [\<lparr>vehicles = 0, total_wait_secs = 0, vehicles_served = 2\<rparr>,
        \<lparr>vehicles = 0, total_wait_secs = 0, vehicles_served = 0\<rparr>,
        \<lparr>vehicles = 5, total_wait_secs = 45, vehicles_served = 0\<rparr>,
        \<lparr>vehicles = 1, total_wait_secs = 9, vehicles_served = 0\<rparr>] \<and>
   run_one_cycle (Some \<lparr>name = ''Main_1'',
       lanes = [\<lparr>vehicles = 2, total_wait_secs = 0, vehicles_served = 0\<rparr>,
                \<lparr>vehicles = 0, total_wait_secs = 0, vehicles_served = 0\<rparr>,
                \<lparr>vehicles = 5, total_wait_secs = 0, vehicles_served = 0\<rparr>,
                \<lparr>vehicles = 1, total_wait_secs = 0, vehicles_served = 0\<rparr>],
       cycles = 0\<rparr>)
     = Some \<lparr>name = ''Main_1'',
       lanes = [\<lparr>vehicles = 0, total_wait_secs = 0, vehicles_served = 2\<rparr>,
                \<lparr>vehicles = 0, total_wait_secs = 0, vehicles_served = 0\<rparr>,
                \<lparr>vehicles = 0, total_wait_secs = 70, vehicles_served = 5\<rparr>,
                \<lparr>vehicles = 0, total_wait_secs = 29, vehicles_served = 1\<rparr>],
       cycles = 1\<rparr>"
  by code_simp

section \<open>A lane during its own green phase\<close>

lemma sint_add_c_long:
  assumes "- 9223372036854775808 \<le> sint a + k" "sint a + k \<le> 9223372036854775807"
  shows "sint (a + word_of_int k :: c_long) = sint a + k"
proof -
  have "a + word_of_int k = word_of_int (sint a + k)"
    by simp
  then have "sint (a + word_of_int k) = signed_take_bit 63 (sint a + k)"
    by (simp only: sint_sbintrunc') simp
  with assms show ?thesis
    by (simp add: signed_take_bit_int_eq_self)
qed

lemma sint_scast_c_int: "sint (scast (v :: c_int) :: c_long) = sint v"
  by (simp add: sint_up_scast is_up)

lemma green_phase_nth:
  assumes "length ls = LANES" "i < LANES" "j < LANES"
  shows "green_phase i ls ! j =
           (lane_tick (j = i) ^^ nat (sint (green_seconds (vehicles (ls ! i))))) (ls ! j)"
  using assms by (simp add: green_phase_lanes map_lanes_nth)

lemma length_green_phase:
  "length ls = LANES \<Longrightarrow> i < LANES \<Longrightarrow> length (green_phase i ls) = LANES"
  by (simp add: green_phase_lanes)

lemma ticks_nth:
  assumes "length ls = LANES" "i < LANES" "j < LANES"
  shows "fold (\<lambda>sec. tick i) [0..<n] ls ! j = (lane_tick (j = i) ^^ n) (ls ! j)"
  using assms by (simp add: fold_const_funpow funpow_tick_lanes map_lanes_nth)

text \<open>
  C9, as the code has it.  Let lane \<open>i\<close> hold \<open>v \<ge> 0\<close> vehicles at the start of its
  green phase, and let \<open>g\<close> be the number of seconds of the phase: the green time
  of \<open>v\<close> raised to \<open>BASE_GREEN\<close> when it is smaller, which is the green time itself
  for every \<open>v\<close> up to 1073741821, and always lies between 5 and 40.  At the end of
  the phase the lane holds \<open>max (v - g) 0\<close> vehicles, its \<open>vehicles_served\<close> has grown
  by \<open>min v g\<close> (in 64-bit arithmetic, and as a signed number when it started at
  \<open>LONG_MAX - 40\<close> or below), and its \<open>total_wait_secs\<close> is the same after every
  second of the phase.  A lane with at most 40 vehicles ends its phase empty.
\<close>

theorem green_phase_own_lane:
  assumes "length ls = LANES" and "i < LANES" and "0 \<le>s vehicles (ls ! i)"
  shows "let v = vehicles (ls ! i);
             g = green_seconds v;
             l' = green_phase i ls ! i
         in 5 \<le> sint g \<and> sint g \<le> 40 \<and>
            (v \<le>s 1073741821 \<longrightarrow> g = calculate_green_time v) \<and>
            sint (vehicles l') = max (sint v - sint g) 0 \<and>
            vehicles_served l' = vehicles_served (ls ! i) + word_of_int (min (sint v) (sint g)) \<and>
            (sint (vehicles_served (ls ! i)) \<le> LONG_MAX - 40 \<longrightarrow>
               sint (vehicles_served l') = sint (vehicles_served (ls ! i)) + min (sint v) (sint g)) \<and>
            (\<forall>n. total_wait_secs (fold (\<lambda>sec. tick i) [0..<n] ls ! i) = total_wait_secs (ls ! i)) \<and>
            total_wait_secs l' = total_wait_secs (ls ! i) \<and>
            (v \<le>s 40 \<longrightarrow> vehicles l' = 0)"
proof -
  define v where "v = vehicles (ls ! i)"
  define g where "g = green_seconds v"
  define l' where "l' = green_phase i ls ! i"
  have l': "l' = (lane_tick True ^^ nat (sint g)) (ls ! i)"
    using assms(1,2) by (simp add: l'_def g_def v_def green_phase_nth)
  have g: "5 \<le> sint g" "sint g \<le> 40"
    using green_seconds_range [of v] by (simp_all add: g_def)
  have v0: "0 \<le> sint v"
    using assms(3) by (simp add: v_def word_sle_eq)
  have geq: "v \<le>s 1073741821 \<longrightarrow> g = calculate_green_time v"
    using assms(3) by (simp add: g_def v_def green_seconds_eq)
  have veh: "sint (vehicles l') = max (sint v - sint g) 0"
    using assms(3) g by (simp add: l' green_vehicles v_def)
  have srv: "vehicles_served l' = vehicles_served (ls ! i) + word_of_int (min (sint v) (sint g))"
    using assms(3) g by (simp add: l' green_served v_def)
  have srv_int: "sint (vehicles_served l') = sint (vehicles_served (ls ! i)) + min (sint v) (sint g)"
    if "sint (vehicles_served (ls ! i)) \<le> LONG_MAX - 40"
  proof -
    have "0 \<le> min (sint v) (sint g)" "min (sint v) (sint g) \<le> 40"
      using v0 g by simp_all
    moreover have "- 9223372036854775808 \<le> sint (vehicles_served (ls ! i))"
      using sint_ge [of "vehicles_served (ls ! i)"] by simp
    ultimately show ?thesis
      using that unfolding srv by (intro sint_add_c_long) (auto simp: LONG_MAX_def)
  qed
  have wait_n: "total_wait_secs (fold (\<lambda>sec. tick i) [0..<n] ls ! i) = total_wait_secs (ls ! i)" for n
    using assms(1,2) by (simp add: ticks_nth green_wait)
  have wait: "total_wait_secs l' = total_wait_secs (ls ! i)"
    by (simp add: l' green_wait)
  have empty: "vehicles l' = 0" if "v \<le>s 40"
  proof -
    from that have v40: "sint v \<le> 40"
      by (simp add: word_sle_eq)
    then have "sint v \<le> 1073741821"
      by simp
    with v0 have "sint (calculate_green_time v) = min 40 (5 + 2 * sint v)"
      by (simp add: sint_calculate_green_time)
    moreover have "g = calculate_green_time v"
      using geq v40 by (simp add: word_sle_eq)
    ultimately have "sint v \<le> sint g"
      using v0 v40 by simp
    then have "sint (vehicles l') = 0"
      by (simp add: veh)
    then show ?thesis
      by (simp add: word_eq_iff_signed [where ?'a = int])
  qed
  show ?thesis
    unfolding Let_def v_def [symmetric] g_def [symmetric] l'_def [symmetric]
    using g geq veh srv srv_int wait_n wait empty by blast
qed

theorem green_phase_own_lane_witness:
  "length [\<lparr>vehicles = 2, total_wait_secs = 0, vehicles_served = 0\<rparr>,
           \<lparr>vehicles = 0, total_wait_secs = 0, vehicles_served = 0\<rparr>,
           \<lparr>vehicles = 50, total_wait_secs = 7, vehicles_served = 3\<rparr>,
           \<lparr>vehicles = 1, total_wait_secs = 0, vehicles_served = 0\<rparr>] = LANES \<and>
   2 < LANES \<and>
   0 \<le>s vehicles ([\<lparr>vehicles = 2, total_wait_secs = 0, vehicles_served = 0\<rparr>,
           \<lparr>vehicles = 0, total_wait_secs = 0, vehicles_served = 0\<rparr>,
           \<lparr>vehicles = 50, total_wait_secs = 7, vehicles_served = 3\<rparr>,
           \<lparr>vehicles = 1, total_wait_secs = 0, vehicles_served = 0\<rparr>] ! 2) \<and>
   green_seconds 50 = 40 \<and>
   green_phase 2 [\<lparr>vehicles = 2, total_wait_secs = 0, vehicles_served = 0\<rparr>,
           \<lparr>vehicles = 0, total_wait_secs = 0, vehicles_served = 0\<rparr>,
           \<lparr>vehicles = 50, total_wait_secs = 7, vehicles_served = 3\<rparr>,
           \<lparr>vehicles = 1, total_wait_secs = 0, vehicles_served = 0\<rparr>] ! 2
     = \<lparr>vehicles = 10, total_wait_secs = 7, vehicles_served = 43\<rparr>"
proof -
  let ?ls = "[\<lparr>vehicles = 2, total_wait_secs = 0, vehicles_served = 0\<rparr>,
           \<lparr>vehicles = 0, total_wait_secs = 0, vehicles_served = 0\<rparr>,
           \<lparr>vehicles = 50, total_wait_secs = 7, vehicles_served = 3\<rparr>,
           \<lparr>vehicles = 1, total_wait_secs = 0, vehicles_served = (0 :: c_long)\<rparr>]"
  have h: "length ?ls = LANES" "2 < LANES" "0 \<le>s vehicles (?ls ! 2)"
    by (simp_all add: LANES_def word_sle_eq)
  have g: "green_seconds 50 = 40"
    by (simp add: green_seconds_def calculate_green_time_def BASE_GREEN_def MAX_GREEN_def)
  have "sint (vehicles (green_phase 2 ?ls ! 2)) = 10 \<and>
        vehicles_served (green_phase 2 ?ls ! 2) = 43 \<and>
        total_wait_secs (green_phase 2 ?ls ! 2) = 7"
    using green_phase_own_lane [OF h] by (simp add: g Let_def)
  then have "green_phase 2 ?ls ! 2 = \<lparr>vehicles = 10, total_wait_secs = 7, vehicles_served = 43\<rparr>"
    by (cases "green_phase 2 ?ls ! 2") (simp add: word_eq_iff_signed [where ?'a = int])
  with h g show ?thesis
    by simp
qed

text \<open>
  C9 as stated, with \<open>g\<close> the green time of \<open>v\<close>, fails where \<open>5 + 2 * v\<close> overflows:
  for \<open>v = 2147483647\<close> the green time wraps to 3, the caller raises it to 5, and the
  lane ends with \<open>v - 5\<close> vehicles, not \<open>v - 3\<close>.
\<close>

theorem green_phase_own_lane_overflow:
  "calculate_green_time 2147483647 = 3 \<and>
   sint (vehicles (green_phase 0
      [\<lparr>vehicles = 2147483647, total_wait_secs = 0, vehicles_served = 0\<rparr>,
       \<lparr>vehicles = 0, total_wait_secs = 0, vehicles_served = 0\<rparr>,
       \<lparr>vehicles = 0, total_wait_secs = 0, vehicles_served = 0\<rparr>,
       \<lparr>vehicles = 0, total_wait_secs = 0, vehicles_served = 0\<rparr>] ! 0))
     \<noteq> max (sint (2147483647 :: c_int) - sint (calculate_green_time 2147483647)) 0"
  by code_simp

section \<open>The cycle counter\<close>

lemma sint_succ_c_int:
  "sint (c :: c_int) < 2147483647 \<Longrightarrow> sint (c + 1) = sint c + 1"
  using sint_ge [of c]
  by (simp add: sint_word_ariths signed_take_bit_int_eq_self)

section \<open>Arrival injector: properties\<close>

lemma c_rem_4:
  assumes "0 \<le>s r"
  shows "c_rem r 4 \<in> {0, 1, 2, 3}"
proof -
  have r: "0 \<le> sint r"
    using assms by (simp add: word_sle_eq)
  then have "sint r smod 4 = sint r mod 4"
    by (simp add: signed_modulo_int_def sgn_if)
  moreover have "sint r mod 4 \<in> {0, 1, 2, 3}"
    by auto
  ultimately show ?thesis
    by (auto simp: c_rem_def)
qed

lemma fold_update_lanes:
  assumes "length ls = LANES"
  shows "fold (\<lambda>i ls. ls[i := f i (ls ! i)]) [0..<LANES] ls = map (\<lambda>i. f i (ls ! i)) [0..<LANES]"
proof -
  obtain a b c d where "ls = [a, b, c, d]"
    using assms by (rule length4E)
  then show ?thesis
    by (simp add: upt_LANES)
qed

lemma random_arrival_lanes:
  assumes "length (lanes it) = LANES"
  shows "lanes (random_arrival_between_cycles rand it) =
           map (\<lambda>i. (lanes it ! i)\<lparr>vehicles := vehicles (lanes it ! i) + c_rem (rand i) 4\<rparr>)
               [0..<LANES]"
  using fold_update_lanes [OF assms, of "\<lambda>i l. l\<lparr>vehicles := vehicles l + c_rem (rand i) 4\<rparr>"]
  by (simp add: random_arrival_between_cycles_def Let_def)

lemma sint_add_c_int:
  assumes "- 2147483648 \<le> sint a + sint b" "sint a + sint b \<le> 2147483647"
  shows "sint (a + b :: c_int) = sint a + sint b"
  using assms by (simp add: sint_word_ariths signed_take_bit_int_eq_self)

text \<open>
  C7.  Whatever non-negative values \<open>rand()\<close> returns, \<open>random_arrival_between_cycles\<close>
  adds to the waiting count of each of the 4 lanes a number among 0, 1, 2 and 3, the
  remainder modulo 4 of that lane's own draw, and leaves \<open>vehicles_served\<close>,
  \<open>total_wait_secs\<close>, \<open>cycles\<close> and the name as they were.  The addition is that of
  a 32-bit \<open>int\<close>; the count goes up by that number as a signed number too when it
  is at most \<open>INT_MAX - 3\<close>.
\<close>

theorem random_arrival_adds_0_to_3:
  assumes "length (lanes it) = LANES" and "\<forall>i<LANES. 0 \<le>s rand i"
  shows "let it' = random_arrival_between_cycles rand it
         in length (lanes it') = LANES \<and>
            (\<forall>i<LANES. \<exists>a\<in>{0, 1, 2, 3}.
               a = c_rem (rand i) 4 \<and>
               vehicles (lanes it' ! i) = vehicles (lanes it ! i) + a \<and>
               (sint (vehicles (lanes it ! i)) \<le> INT_MAX - 3 \<longrightarrow>
                  sint (vehicles (lanes it' ! i)) = sint (vehicles (lanes it ! i)) + sint a) \<and>
               vehicles_served (lanes it' ! i) = vehicles_served (lanes it ! i) \<and>
               total_wait_secs (lanes it' ! i) = total_wait_secs (lanes it ! i)) \<and>
            cycles it' = cycles it \<and>
            name it' = name it"
proof -
  define it' where "it' = random_arrival_between_cycles rand it"
  have lanes': "lanes it' =
      map (\<lambda>i. (lanes it ! i)\<lparr>vehicles := vehicles (lanes it ! i) + c_rem (rand i) 4\<rparr>) [0..<LANES]"
    unfolding it'_def by (rule random_arrival_lanes [OF assms(1)])
  have len: "length (lanes it') = LANES"
    by (simp add: lanes')
  have other: "cycles it' = cycles it" "name it' = name it"
    by (simp_all add: it'_def random_arrival_between_cycles_def)
  have lane: "\<exists>a\<in>{0, 1, 2, 3}.
               a = c_rem (rand i) 4 \<and>
               vehicles (lanes it' ! i) = vehicles (lanes it ! i) + a \<and>
               (sint (vehicles (lanes it ! i)) \<le> INT_MAX - 3 \<longrightarrow>
                  sint (vehicles (lanes it' ! i)) = sint (vehicles (lanes it ! i)) + sint a) \<and>
               vehicles_served (lanes it' ! i) = vehicles_served (lanes it ! i) \<and>
               total_wait_secs (lanes it' ! i) = total_wait_secs (lanes it ! i)"
    if i: "i < LANES" for i
  proof -
    let ?a = "c_rem (rand i) 4"
    have a: "?a \<in> {0, 1, 2, 3}"
      using assms(2) i by (intro c_rem_4) simp
    then have sa: "0 \<le> sint ?a" "sint ?a \<le> 3"
      by auto
    have l': "lanes it' ! i = (lanes it ! i)\<lparr>vehicles := vehicles (lanes it ! i) + ?a\<rparr>"
      using i by (simp add: lanes' map_lanes_nth)
    have "sint (vehicles (lanes it ! i) + ?a) = sint (vehicles (lanes it ! i)) + sint ?a"
      if "sint (vehicles (lanes it ! i)) \<le> INT_MAX - 3"
      using that sa sint_ge [of "vehicles (lanes it ! i)"]
      by (intro sint_add_c_int) (simp_all add: INT_MAX_def)
    with a show ?thesis
      unfolding l' by (intro bexI [of _ ?a]) simp_all
  qed
  show ?thesis
    unfolding Let_def it'_def [symmetric] using len lane other by blast
qed

theorem random_arrival_adds_0_to_3_witness:
  "length (lanes \<lparr>name = ''Main_1'',
      lanes = [\<lparr>vehicles = 2, total_wait_secs = 0, vehicles_served = 0\<rparr>,
               \<lparr>vehicles = 0, total_wait_secs = 0, vehicles_served = 0\<rparr>,
               \<lparr>vehicles = 5, total_wait_secs = 70, vehicles_served = 5\<rparr>,
               \<lparr>vehicles = 1, total_wait_secs = 29, vehicles_served = 1\<rparr>],
      cycles = 1\<rparr>) = LANES \<and>
   list_all (\<lambda>i. 0 \<le>s (word_of_nat (7 * i + 2) :: c_int)) [0..<LANES] \<and>
   list_all (\<lambda>i. sint (vehicles (lanes \<lparr>name = ''Main_1'',
      lanes = [\<lparr>vehicles = 2, total_wait_secs = 0, vehicles_served = 0\<rparr>,
               \<lparr>vehicles = 0, total_wait_secs = 0, vehicles_served = 0\<rparr>,
               \<lparr>vehicles = 5, total_wait_secs = 70, vehicles_served = 5\<rparr>,
               \<lparr>vehicles = 1, total_wait_secs = 29, vehicles_served = 1\<rparr>],
      cycles = 1\<rparr> ! i)) \<le> INT_MAX - 3) [0..<LANES] \<and>
   lanes (random_arrival_between_cycles (\<lambda>i. word_of_nat (7 * i + 2))
     \<lparr>name = ''Main_1'',
      lanes = [\<lparr>vehicles = 2, total_wait_secs = 0, vehicles_served = 0\<rparr>,
               \<lparr>vehicles = 0, total_wait_secs = 0, vehicles_served = 0\<rparr>,
               \<lparr>vehicles = 5, total_wait_secs = 70, vehicles_served = 5\<rparr>,
               \<lparr>vehicles = 1, total_wait_secs = 29, vehicles_served = 1\<rparr>],
      cycles = 1\<rparr>)
    = [\<lparr>vehicles = 4, total_wait_secs = 0, vehicles_served = 0\<rparr>,
       \<lparr>vehicles = 1, total_wait_secs = 0, vehicles_served = 0\<rparr>,
       \<lparr>vehicles = 5, total_wait_secs = 70, vehicles_served = 5\<rparr>,
       \<lparr>vehicles = 4, total_wait_secs = 29, vehicles_served = 1\<rparr>]"
proof -
  let ?it = "\<lparr>name = ''Main_1'',
      lanes = [\<lparr>vehicles = 2, total_wait_secs = 0, vehicles_served = 0\<rparr>,
               \<lparr>vehicles = 0, total_wait_secs = 0, vehicles_served = 0\<rparr>,
               \<lparr>vehicles = 5, total_wait_secs = 70, vehicles_served = 5\<rparr>,
               \<lparr>vehicles = 1, total_wait_secs = 29, vehicles_served = (1 :: c_long)\<rparr>],
      cycles = (1 :: c_int)\<rparr>"
  let ?rand = "\<lambda>i. word_of_nat (7 * i + 2) :: c_int"
  have h1: "length (lanes ?it) = LANES"
    by (simp add: LANES_def)
  have h2: "\<forall>i<LANES. 0 \<le>s ?rand i"
    by (simp add: lt_LANES word_sle_eq)
  have h3: "\<forall>i<LANES. sint (vehicles (lanes ?it ! i)) \<le> INT_MAX - 3"
    by (auto simp: lt_LANES INT_MAX_def)
  have r: "lanes (random_arrival_between_cycles ?rand ?it)
    = [\<lparr>vehicles = 4, total_wait_secs = 0, vehicles_served = 0\<rparr>,
       \<lparr>vehicles = 1, total_wait_secs = 0, vehicles_served = 0\<rparr>,
       \<lparr>vehicles = 5, total_wait_secs = 70, vehicles_served = 5\<rparr>,
       \<lparr>vehicles = 4, total_wait_secs = 29, vehicles_served = 1\<rparr>]"
    by code_simp
  from random_arrival_adds_0_to_3 [OF h1 h2] h1 h2 h3 r show ?thesis
    by (simp add: list_all_iff)
qed

section \<open>Counters along a run\<close>

lemma green_run:
  assumes "0 \<le> sint (vehicles l)" "n \<le> 40" "sint (vehicles_served l) \<le> LONG_MAX - 40"
  defines "l' \<equiv> (lane_tick True ^^ n) l"
  shows "0 \<le> sint (vehicles l')" "sint (vehicles l') \<le> sint (vehicles l)"
    "sint (vehicles_served l) \<le> sint (vehicles_served l')"
    "sint (vehicles_served l') \<le> sint (vehicles_served l) + 40"
    "total_wait_secs l' = total_wait_secs l"
proof -
  have v: "0 \<le>s vehicles l"
    using assms(1) by (simp add: word_sle_eq)
  show "0 \<le> sint (vehicles l')" "sint (vehicles l') \<le> sint (vehicles l)"
    using assms(1) by (simp_all add: l'_def green_vehicles [OF v])
  let ?k = "min (sint (vehicles l)) (int n)"
  have k: "0 \<le> ?k" "?k \<le> 40"
    using assms(1,2) by simp_all
  have "sint (vehicles_served l + word_of_int ?k) = sint (vehicles_served l) + ?k"
    using k assms(3) sint_ge [of "vehicles_served l"]
    by (intro sint_add_c_long) (auto simp: LONG_MAX_def)
  then have "sint (vehicles_served l') = sint (vehicles_served l) + ?k"
    by (simp add: l'_def green_served [OF v])
  with k show "sint (vehicles_served l) \<le> sint (vehicles_served l')"
    "sint (vehicles_served l') \<le> sint (vehicles_served l) + 40"
    by simp_all
  show "total_wait_secs l' = total_wait_secs l"
    by (simp add: l'_def green_wait)
qed

lemma idle_run:
  assumes "0 \<le> sint (vehicles l)" "n \<le> 40"
    "sint (total_wait_secs l) + 40 * sint (vehicles l) \<le> LONG_MAX"
  defines "l' \<equiv> (lane_tick False ^^ n) l"
  shows "vehicles l' = vehicles l" "vehicles_served l' = vehicles_served l"
    "sint (total_wait_secs l) \<le> sint (total_wait_secs l')"
    "sint (total_wait_secs l') \<le> sint (total_wait_secs l) + 40 * sint (vehicles l)"
proof -
  show "vehicles l' = vehicles l" "vehicles_served l' = vehicles_served l"
    by (simp_all add: l'_def idle_vehicles idle_served)
  let ?k = "int n * sint (vehicles l)"
  have k: "0 \<le> ?k" "?k \<le> 40 * sint (vehicles l)"
    using assms(1,2) by (simp_all add: mult_right_mono)
  have "total_wait_secs l' = total_wait_secs l + word_of_int ?k"
  proof (cases "0 <s vehicles l")
    case True
    then show ?thesis
      by (simp add: l'_def idle_wait)
  next
    case False
    with assms(1) have "sint (vehicles l) = 0"
      by (simp add: word_sless_alt)
    with False show ?thesis
      by (simp add: l'_def idle_wait)
  qed
  moreover have "sint (total_wait_secs l + word_of_int ?k) = sint (total_wait_secs l) + ?k"
    using k assms(3) sint_ge [of "total_wait_secs l"]
    by (intro sint_add_c_long) (auto simp: LONG_MAX_def)
  ultimately have "sint (total_wait_secs l') = sint (total_wait_secs l) + ?k"
    by simp
  with k show "sint (total_wait_secs l) \<le> sint (total_wait_secs l')"
    "sint (total_wait_secs l') \<le> sint (total_wait_secs l) + 40 * sint (vehicles l)"
    by simp_all
qed

lemma green_ticks_le: "nat (sint (green_seconds w)) \<le> 40"
  using green_seconds_range [of w] by (simp add: nat_le_iff)

lemma phase_step_own:
  assumes "length ls = LANES" "i < LANES"
    and "lane_within a 0 l0 (ls ! i)"
    and "sint (vehicles_served l0) \<le> LONG_MAX - 40"
  shows "lane_within a 1 l0 (green_phase i ls ! i)"
proof -
  let ?l = "ls ! i"
  let ?n = "nat (sint (green_seconds (vehicles ?l)))"
  have l': "green_phase i ls ! i = (lane_tick True ^^ ?n) ?l"
    using assms(1,2) by (simp add: green_phase_nth)
  have h: "0 \<le> sint (vehicles ?l)" "sint (vehicles_served ?l) \<le> LONG_MAX - 40"
    using assms(3,4) by (simp_all add: lane_within_def)
  note r = green_run [OF h(1) green_ticks_le h(2), of "vehicles ?l"]
  show ?thesis
    using assms(3) r unfolding l' lane_within_def by simp
qed

lemma phase_step_other:
  assumes "length ls = LANES" "i < LANES" "j < LANES" "j \<noteq> i"
    and "lane_within a b l0 (ls ! j)"
    and "0 \<le> a" "a \<le> 2"
    and "sint (total_wait_secs l0) + 120 * sint (vehicles l0) \<le> LONG_MAX"
  shows "lane_within (a + 1) b l0 (green_phase i ls ! j)"
proof -
  let ?l = "ls ! j"
  let ?n = "nat (sint (green_seconds (vehicles (ls ! i))))"
  have l': "green_phase i ls ! j = (lane_tick False ^^ ?n) ?l"
    using assms(1-4) by (simp add: green_phase_nth)
  have w: "0 \<le> sint (vehicles ?l)" "sint (vehicles ?l) \<le> sint (vehicles l0)"
    "sint (total_wait_secs ?l) \<le> sint (total_wait_secs l0) + 40 * (a * sint (vehicles l0))"
    using assms(5) by (simp_all add: lane_within_def)
  have a: "a * sint (vehicles l0) \<le> 2 * sint (vehicles l0)"
    using assms(7) w by (intro mult_right_mono) simp_all
  have room: "sint (total_wait_secs ?l) + 40 * sint (vehicles ?l) \<le> LONG_MAX"
    using w a assms(8) by simp
  note r = idle_run [OF w(1) green_ticks_le room, of "vehicles (ls ! i)"]
  have "(a + 1) * sint (vehicles l0) = a * sint (vehicles l0) + sint (vehicles l0)"
    by (simp add: algebra_simps)
  then show ?thesis
    using assms(5) r w unfolding l' lane_within_def by simp
qed

lemma lane_within_start:
  "0 \<le> sint (vehicles l) \<Longrightarrow> lane_within 0 0 l l"
  by (simp add: lane_within_def)

lemma fold_green_phase_Suc:
  "fold green_phase [0..<Suc k] ls = green_phase k (fold green_phase [0..<k] ls)"
  by simp

lemma cycle_prefix:
  assumes len: "length ls = LANES"
    and veh: "\<forall>j<LANES. 0 \<le> sint (vehicles (ls ! j))"
    and room: "\<forall>j<LANES. sint (vehicles_served (ls ! j)) \<le> LONG_MAX - 40 \<and>
                 sint (total_wait_secs (ls ! j)) + 120 * sint (vehicles (ls ! j)) \<le> LONG_MAX"
    and k: "k \<le> LANES"
  shows "length (fold green_phase [0..<k] ls) = LANES \<and>
         (\<forall>j<LANES. lane_within (int k - (if j < k then 1 else 0)) (if j < k then 1 else 0)
                      (ls ! j) (fold green_phase [0..<k] ls ! j))"
  using k
proof (induction k)
  case 0
  show ?case
    using len veh by (simp add: lane_within_start)
next
  case (Suc k)
  let ?ls = "fold green_phase [0..<k] ls"
  from Suc have k: "k < LANES" and len': "length ?ls = LANES"
    and IH: "\<And>j. j < LANES \<Longrightarrow>
      lane_within (int k - (if j < k then 1 else 0)) (if j < k then 1 else 0) (ls ! j) (?ls ! j)"
    by simp_all
  have "lane_within (int (Suc k) - (if j < Suc k then 1 else 0)) (if j < Suc k then 1 else 0)
          (ls ! j) (green_phase k ?ls ! j)" if j: "j < LANES" for j
  proof (cases "j = k")
    case True
    have "lane_within (int k) 0 (ls ! k) (?ls ! k)"
      using IH [OF k] by simp
    from phase_step_own [OF len' k this] room k
    have "lane_within (int k) 1 (ls ! k) (green_phase k ?ls ! k)"
      by simp
    with True show ?thesis
      by simp
  next
    case False
    let ?a = "int k - (if j < k then 1 else 0)"
    let ?b = "if j < k then 1 else 0 :: int"
    have a: "0 \<le> ?a" "?a \<le> 2"
      using False j k by (auto simp: LANES_def)
    from phase_step_other [OF len' k j False IH [OF j] a] room j
    have step: "lane_within (?a + 1) ?b (ls ! j) (green_phase k ?ls ! j)"
      by simp
    show ?thesis
    proof (cases "j < k")
      case True
      with step show ?thesis by simp
    next
      case False
      with \<open>j \<noteq> k\<close> have "\<not> j < Suc k" by simp
      with step False show ?thesis by (simp add: add.commute)
    qed
  qed
  then show ?case
    using len' k by (simp only: fold_green_phase_Suc length_green_phase) simp
qed

lemma cycle_lanes:
  assumes len: "length ls = LANES"
    and veh: "\<forall>j<LANES. 0 \<le> sint (vehicles (ls ! j))"
    and room: "\<forall>j<LANES. sint (vehicles_served (ls ! j)) \<le> LONG_MAX - 40 \<and>
                 sint (total_wait_secs (ls ! j)) + 120 * sint (vehicles (ls ! j)) \<le> LONG_MAX"
  shows "length (fold green_phase [0..<LANES] ls) = LANES"
    and "j < LANES \<Longrightarrow> lane_within 3 1 (ls ! j) (fold green_phase [0..<LANES] ls ! j)"
proof -
  note p = cycle_prefix [OF len veh room order_refl]
  from p show "length (fold green_phase [0..<LANES] ls) = LANES"
    by simp
  assume j: "j < LANES"
  with p have "lane_within (int LANES - (if j < LANES then 1 else 0)) (if j < LANES then 1 else 0)
      (ls ! j) (fold green_phase [0..<LANES] ls ! j)"
    by blast
  with j show "lane_within 3 1 (ls ! j) (fold green_phase [0..<LANES] ls ! j)"
    by (simp add: LANES_def)
qed

lemma operation_step:
  assumes len: "length (lanes it) = LANES"
    and veh: "\<forall>j<LANES. 0 \<le> sint (vehicles (lanes it ! j))"
    and room: "has_room x it"
  shows "length (lanes (apply_operation x it)) = LANES \<and>
         (\<forall>j<LANES. 0 \<le> sint (vehicles (lanes (apply_operation x it) ! j)) \<and>
            sint (vehicles_served (lanes it ! j))
              \<le> sint (vehicles_served (lanes (apply_operation x it) ! j)) \<and>
            sint (total_wait_secs (lanes it ! j))
              \<le> sint (total_wait_secs (lanes (apply_operation x it) ! j)))"
proof (cases x)
  case Run_cycle
  have lanes': "lanes (apply_operation x it) = fold green_phase [0..<LANES] (lanes it)"
    by (simp add: Run_cycle)
  have r: "\<forall>j<LANES. sint (vehicles_served (lanes it ! j)) \<le> LONG_MAX - 40 \<and>
             sint (total_wait_secs (lanes it ! j)) + 120 * sint (vehicles (lanes it ! j)) \<le> LONG_MAX"
    using room len by (simp add: Run_cycle list_all_length)
  note c = cycle_lanes [OF len veh r]
  show ?thesis
    unfolding lanes' using c by (auto simp: lane_within_def)
next
  case (Inject_arrivals rand)
  have lanes': "lanes (apply_operation x it) =
      map (\<lambda>i. (lanes it ! i)\<lparr>vehicles := vehicles (lanes it ! i) + c_rem (rand i) 4\<rparr>) [0..<LANES]"
    using random_arrival_lanes [OF len, of rand] by (simp add: Inject_arrivals)
  have r: "\<forall>j<LANES. 0 \<le>s rand j" "\<forall>j<LANES. sint (vehicles (lanes it ! j)) \<le> INT_MAX - 3"
    using room len by (simp_all add: Inject_arrivals list_all_length)
  have "0 \<le> sint (vehicles (lanes it ! j) + c_rem (rand j) 4)" if j: "j < LANES" for j
  proof -
    have "c_rem (rand j) 4 \<in> {0, 1, 2, 3}"
      using r(1) j by (intro c_rem_4) simp
    then have a: "0 \<le> sint (c_rem (rand j) 4)" "sint (c_rem (rand j) 4) \<le> 3"
      by auto
    have "sint (vehicles (lanes it ! j) + c_rem (rand j) 4)
            = sint (vehicles (lanes it ! j)) + sint (c_rem (rand j) 4)"
      using a r(2) veh j by (intro sint_add_c_int) (auto simp: INT_MAX_def)
    with a veh j show ?thesis
      by simp
  qed
  then show ?thesis
    unfolding lanes' by (simp add: map_lanes_nth)
qed

lemma run_invariant:
  assumes "length (lanes it) = LANES"
    and "\<forall>j<LANES. 0 \<le> sint (vehicles (lanes it ! j))"
    and "no_overflow ops it"
  shows "length (lanes (fold apply_operation ops it)) = LANES \<and>
         (\<forall>j<LANES. 0 \<le> sint (vehicles (lanes (fold apply_operation ops it) ! j)) \<and>
            sint (vehicles_served (lanes it ! j))
              \<le> sint (vehicles_served (lanes (fold apply_operation ops it) ! j)) \<and>
            sint (total_wait_secs (lanes it ! j))
              \<le> sint (total_wait_secs (lanes (fold apply_operation ops it) ! j)))"
  using assms
proof (induction ops arbitrary: it)
  case Nil
  then show ?case by simp
next
  case (Cons x xs)
  from Cons.prems(3) have room: "has_room x it" and rest: "no_overflow xs (apply_operation x it)"
    by simp_all
  note s = operation_step [OF Cons.prems(1,2) room]
  from s have len': "length (lanes (apply_operation x it)) = LANES"
    and veh': "\<forall>j<LANES. 0 \<le> sint (vehicles (lanes (apply_operation x it) ! j))"
    by simp_all
  note r = Cons.IH [OF len' veh' rest]
  show ?case
  proof (intro conjI allI impI)
    show "length (lanes (fold apply_operation (x # xs) it)) = LANES"
      using r by simp
  next
    fix j assume j: "j < LANES"
    show "0 \<le> sint (vehicles (lanes (fold apply_operation (x # xs) it) ! j))"
      using r j by simp
    show "sint (vehicles_served (lanes it ! j))
            \<le> sint (vehicles_served (lanes (fold apply_operation (x # xs) it) ! j))"
      using r s j by (fastforce intro: order_trans)
    show "sint (total_wait_secs (lanes it ! j))
            \<le> sint (total_wait_secs (lanes (fold apply_operation (x # xs) it) ! j))"
      using r s j by (fastforce intro: order_trans)
  qed
qed

text \<open>
  C2, as the code has it.  Start from an intersection whose four lanes have non-negative
  waiting counts and run any sequence of cycles and arrival injections such that the
  counters have room before each operation: before a cycle every lane has
  \<open>vehicles_served \<le> LONG_MAX - 40\<close> and \<open>total_wait_secs + 120 * vehicles \<le> LONG_MAX\<close>,
  before an injection every lane has \<open>vehicles \<le> INT_MAX - 3\<close>, and \<open>rand()\<close> returns
  non-negative values.  Then every lane still has a non-negative waiting count, and its
  \<open>vehicles_served\<close> and \<open>total_wait_secs\<close> are at least what they were before the
  sequence.
\<close>

theorem counters_never_decrease:
  assumes "length (lanes it) = LANES"
    and "\<forall>j<LANES. 0 \<le>s vehicles (lanes it ! j)"
    and "no_overflow ops it"
  shows "let it' = fold apply_operation ops it
         in length (lanes it') = LANES \<and>
            (\<forall>j<LANES. 0 \<le>s vehicles (lanes it' ! j) \<and>
               vehicles_served (lanes it ! j) \<le>s vehicles_served (lanes it' ! j) \<and>
               total_wait_secs (lanes it ! j) \<le>s total_wait_secs (lanes it' ! j))"
proof -
  from assms(2) have "\<forall>j<LANES. 0 \<le> sint (vehicles (lanes it ! j))"
    by (simp add: word_sle_eq)
  from run_invariant [OF assms(1) this assms(3)] show ?thesis
    by (simp add: Let_def word_sle_eq)
qed

theorem counters_never_decrease_witness:
  "length (lanes \<lparr>name = ''Main_1'',
      lanes = [\<lparr>vehicles = 2, total_wait_secs = 0, vehicles_served = 0\<rparr>,
               \<lparr>vehicles = 0, total_wait_secs = 0, vehicles_served = 0\<rparr>,
               \<lparr>vehicles = 5, total_wait_secs = 0, vehicles_served = 0\<rparr>,
               \<lparr>vehicles = 1, total_wait_secs = 0, vehicles_served = 0\<rparr>],
      cycles = 0\<rparr>) = LANES \<and>
   list_all (\<lambda>j. 0 \<le>s vehicles (lanes \<lparr>name = ''Main_1'',
      lanes = [\<lparr>vehicles = 2, total_wait_secs = 0, vehicles_served = 0\<rparr>,
               \<lparr>vehicles = 0, total_wait_secs = 0, vehicles_served = 0\<rparr>,
               \<lparr>vehicles = 5, total_wait_secs = 0, vehicles_served = 0\<rparr>,
               \<lparr>vehicles = 1, total_wait_secs = 0, vehicles_served = 0\<rparr>],
      cycles = 0\<rparr> ! j)) [0..<LANES] \<and>
   no_overflow [Run_cycle, Inject_arrivals (\<lambda>i. word_of_nat (7 * i + 2)), Run_cycle]
     \<lparr>name = ''Main_1'',
      lanes = [\<lparr>vehicles = 2, total_wait_secs = 0, vehicles_served = 0\<rparr>,
               \<lparr>vehicles = 0, total_wait_secs = 0, vehicles_served = 0\<rparr>,
               \<lparr>vehicles = 5, total_wait_secs = 0, vehicles_served = 0\<rparr>,
               \<lparr>vehicles = 1, total_wait_secs = 0, vehicles_served = 0\<rparr>],
      cycles = 0\<rparr> \<and>
   list_all (\<lambda>j.
      0 \<le>s vehicles (lanes (fold apply_operation
        [Run_cycle, Inject_arrivals (\<lambda>i. word_of_nat (7 * i + 2)), Run_cycle]
        \<lparr>name = ''Main_1'',
         lanes = [\<lparr>vehicles = 2, total_wait_secs = 0, vehicles_served = 0\<rparr>,
                  \<lparr>vehicles = 0, total_wait_secs = 0, vehicles_served = 0\<rparr>,
                  \<lparr>vehicles = 5, total_wait_secs = 0, vehicles_served = 0\<rparr>,
                  \<lparr>vehicles = 1, total_wait_secs = 0, vehicles_served = 0\<rparr>],
         cycles = 0\<rparr>) ! j) \<and>
      0 \<le>s vehicles_served (lanes (fold apply_operation
        [Run_cycle, Inject_arrivals (\<lambda>i. word_of_nat (7 * i + 2)), Run_cycle]
        \<lparr>name = ''Main_1'',
         lanes = [\<lparr>vehicles = 2, total_wait_secs = 0, vehicles_served = 0\<rparr>,
                  \<lparr>vehicles = 0, total_wait_secs = 0, vehicles_served = 0\<rparr>,
                  \<lparr>vehicles = 5, total_wait_secs = 0, vehicles_served = 0\<rparr>,
                  \<lparr>vehicles = 1, total_wait_secs = 0, vehicles_served = 0\<rparr>],
         cycles = 0\<rparr>) ! j) \<and>
      0 \<le>s total_wait_secs (lanes (fold apply_operation
        [Run_cycle, Inject_arrivals (\<lambda>i. word_of_nat (7 * i + 2)), Run_cycle]
        \<lparr>name = ''Main_1'',
         lanes = [\<lparr>vehicles = 2, total_wait_secs = 0, vehicles_served = 0\<rparr>,
                  \<lparr>vehicles = 0, total_wait_secs = 0, vehicles_served = 0\<rparr>,
                  \<lparr>vehicles = 5, total_wait_secs = 0, vehicles_served = 0\<rparr>,
                  \<lparr>vehicles = 1, total_wait_secs = 0, vehicles_served = 0\<rparr>],
         cycles = 0\<rparr>) ! j)) [0..<LANES]"
proof -
  let ?start = "\<lparr>name = ''Main_1'',
      lanes = [\<lparr>vehicles = 2, total_wait_secs = 0, vehicles_served = 0\<rparr>,
               \<lparr>vehicles = 0, total_wait_secs = 0, vehicles_served = 0\<rparr>,
               \<lparr>vehicles = 5, total_wait_secs = 0, vehicles_served = 0\<rparr>,
               \<lparr>vehicles = 1, total_wait_secs = 0, vehicles_served = (0 :: c_long)\<rparr>],
      cycles = (0 :: c_int)\<rparr>"
  let ?ops = "[Run_cycle, Inject_arrivals (\<lambda>i. word_of_nat (7 * i + 2)), Run_cycle]"
  have h1: "length (lanes ?start) = LANES"
    by (simp add: LANES_def)
  have h2: "\<forall>j<LANES. 0 \<le>s vehicles (lanes ?start ! j)"
    by (auto simp: lt_LANES word_sle_eq)
  have h3: "no_overflow ?ops ?start"
    by code_simp
  have z: "\<forall>j<LANES. vehicles_served (lanes ?start ! j) = 0 \<and> total_wait_secs (lanes ?start ! j) = 0"
    by (auto simp: lt_LANES)
  from counters_never_decrease [OF h1 h2 h3] z
  have "\<forall>j<LANES. 0 \<le>s vehicles (lanes (fold apply_operation ?ops ?start) ! j) \<and>
          0 \<le>s vehicles_served (lanes (fold apply_operation ?ops ?start) ! j) \<and>
          0 \<le>s total_wait_secs (lanes (fold apply_operation ?ops ?start) ! j)"
    unfolding Let_def by metis
  with h1 h2 h3 show ?thesis
    by (simp add: list_all_iff)
qed

text \<open>
  C2 as stated, for every state with non-negative counters, fails where a counter
  overflows: a lane with \<open>INT_MAX\<close> waiting vehicles that receives one arrival has a
  negative waiting count.
\<close>

theorem arrivals_overflow:
  "list_all (\<lambda>l. 0 \<le>s vehicles l \<and> 0 \<le>s vehicles_served l \<and> 0 \<le>s total_wait_secs l)
     [\<lparr>vehicles = 2147483647, total_wait_secs = 0, vehicles_served = 0\<rparr>,
      \<lparr>vehicles = 0, total_wait_secs = 0, vehicles_served = 0\<rparr>,
      \<lparr>vehicles = 0, total_wait_secs = 0, vehicles_served = 0\<rparr>,
      \<lparr>vehicles = 0, total_wait_secs = 0, vehicles_served = 0\<rparr>] \<and>
   \<not> 0 \<le>s vehicles (lanes (fold apply_operation [Inject_arrivals (\<lambda>i. 1)]
     \<lparr>name = ''Main_1'',
      lanes = [\<lparr>vehicles = 2147483647, total_wait_secs = 0, vehicles_served = 0\<rparr>,
               \<lparr>vehicles = 0, total_wait_secs = 0, vehicles_served = 0\<rparr>,
               \<lparr>vehicles = 0, total_wait_secs = 0, vehicles_served = 0\<rparr>,
               \<lparr>vehicles = 0, total_wait_secs = 0, vehicles_served = 0\<rparr>],
      cycles = 0\<rparr>) ! 0)"
  by code_simp

section \<open>The driver: input errors\<close>

lemma map_update_same: "(map f xs)[i := f (xs ! i)] = map f xs"
  by (cases "i < length xs") (simp_all add: list_eq_iff_nth_eq nth_list_update)

lemma input_loop_keeps:
  "input_loop idxs it inp = Inr (it', rest) \<Longrightarrow>
     cycles it' = cycles it \<and> name it' = name it \<and>
     length (lanes it') = length (lanes it) \<and>
     map vehicles_served (lanes it') = map vehicles_served (lanes it) \<and>
     map total_wait_secs (lanes it') = map total_wait_secs (lanes it)"
proof (induction idxs arbitrary: it inp)
  case Nil
  then show ?case by simp
next
  case (Cons i idxs)
  show ?case
  proof (cases inp)
    case Nil
    with Cons.prems show ?thesis by simp
  next
    case (Cons x xs)
    show ?thesis
    proof (cases x)
      case None
      with Cons.prems \<open>inp = x # xs\<close> show ?thesis by simp
    next
      case (Some v)
      let ?v = "if v <s 0 then 0 else v"
      let ?it = "it\<lparr>lanes := (lanes it)[i := (lanes it ! i)\<lparr>vehicles := ?v\<rparr>]\<rparr>"
      from Cons.prems \<open>inp = x # xs\<close> Some
      have "input_loop idxs ?it xs = Inr (it', rest)"
        by (simp add: Let_def)
      from Cons.IH [OF this] show ?thesis
        by (simp add: map_update map_update_same)
    qed
  qed
qed

lemma create_intersection_fresh:
  "create_intersection a b nm = Inr it0 \<Longrightarrow>
     cycles it0 = 0 \<and> length (lanes it0) = LANES \<and>
     (\<forall>l\<in>set (lanes it0). vehicles_served l = 0 \<and> total_wait_secs l = 0)"
  by (auto simp: create_intersection_def split: if_splits)

text \<open>
  C6.  In every run that reaches the prompt for the number of cycles (both allocations
  succeeded and the four lane counts were read), if the entry cannot be read as an
  integer or is an integer \<open>\<le> 0\<close>, the program returns status 1, which is not zero,
  and the intersection is the one the input stage left: no cycle has run on it, its
  cycle counter and all its accumulators are still zero.
\<close>

theorem invalid_cycle_count_exits:
  assumes "create_intersection (intersection_alloc_ok env) (lanes_alloc_ok env) ''Main_1'' = Inr it0"
    and "input_vehicle_counts it0 (stdin env) = Inr (it, rest)"
    and "fst (scanf_d rest) = None \<or> (\<exists>n. fst (scanf_d rest) = Some n \<and> n \<le>s 0)"
  shows "main env = \<lparr>status = 1, state = Some it\<rparr> \<and> status (main env) \<noteq> 0 \<and>
         cycles it = 0 \<and>
         (\<forall>l\<in>set (lanes it). vehicles_served l = 0 \<and> total_wait_secs l = 0)"
proof -
  have m: "main env = \<lparr>status = 1, state = Some it\<rparr>"
    using assms by (auto simp: main_def)
  note f = create_intersection_fresh [OF assms(1)]
  note k = input_loop_keeps [OF assms(2) [unfolded input_vehicle_counts_def]]
  have "\<forall>x\<in>set (map vehicles_served (lanes it)). x = 0"
    "\<forall>x\<in>set (map total_wait_secs (lanes it)). x = 0"
    using f k by simp_all
  then have "\<forall>l\<in>set (lanes it). vehicles_served l = 0 \<and> total_wait_secs l = 0"
    by simp
  with m f k show ?thesis
    by simp
qed


theorem invalid_cycle_count_exits_witness:
  "create_intersection
     (intersection_alloc_ok \<lparr>intersection_alloc_ok = True, lanes_alloc_ok = True,
        stdin = [Some 2, Some 0, Some 5, Some 1, Some (- 4)], rand_calls = (\<lambda>i. 2)\<rparr>)
     (lanes_alloc_ok \<lparr>intersection_alloc_ok = True, lanes_alloc_ok = True,
        stdin = [Some 2, Some 0, Some 5, Some 1, Some (- 4)], rand_calls = (\<lambda>i. 2)\<rparr>) ''Main_1''
     = Inr \<lparr>name = ''Main_1'',
            lanes = replicate LANES \<lparr>vehicles = 0, total_wait_secs = 0, vehicles_served = 0\<rparr>,
            cycles = 0\<rparr> \<and>
   input_vehicle_counts
     \<lparr>name = ''Main_1'',
      lanes = replicate LANES \<lparr>vehicles = 0, total_wait_secs = 0, vehicles_served = 0\<rparr>,
      cycles = 0\<rparr>
     (stdin \<lparr>intersection_alloc_ok = True, lanes_alloc_ok = True,
        stdin = [Some 2, Some 0, Some 5, Some 1, Some (- 4)], rand_calls = (\<lambda>i. 2)\<rparr>)
     = Inr (\<lparr>name = ''Main_1'',
             lanes = [\<lparr>vehicles = 2, total_wait_secs = 0, vehicles_served = 0\<rparr>,
                      \<lparr>vehicles = 0, total_wait_secs = 0, vehicles_served = 0\<rparr>,
                      \<lparr>vehicles = 5, total_wait_secs = 0, vehicles_served = 0\<rparr>,
                      \<lparr>vehicles = 1, total_wait_secs = 0, vehicles_served = 0\<rparr>],
             cycles = 0\<rparr>, [Some (- 4)]) \<and>
   (fst (scanf_d [Some (- 4 :: c_int)]) = None \<or>
    (\<exists>n. fst (scanf_d [Some (- 4 :: c_int)]) = Some n \<and> n \<le>s 0)) \<and>
   main \<lparr>intersection_alloc_ok = True, lanes_alloc_ok = True,
        stdin = [Some 2, Some 0, Some 5, Some 1, Some (- 4)], rand_calls = (\<lambda>i. 2)\<rparr>
     = \<lparr>status = 1,
        state = Some \<lparr>name = ''Main_1'',
             lanes = [\<lparr>vehicles = 2, total_wait_secs = 0, vehicles_served = 0\<rparr>,
                      \<lparr>vehicles = 0, total_wait_secs = 0, vehicles_served = 0\<rparr>,
                      \<lparr>vehicles = 5, total_wait_secs = 0, vehicles_served = 0\<rparr>,
                      \<lparr>vehicles = 1, total_wait_secs = 0, vehicles_served = 0\<rparr>],
             cycles = 0\<rparr>\<rparr>"
proof -
  let ?env = "\<lparr>intersection_alloc_ok = True, lanes_alloc_ok = True,
        stdin = [Some 2, Some 0, Some 5, Some 1, Some (- 4 :: c_int)], rand_calls = (\<lambda>i. 2 :: c_int)\<rparr>"
  let ?fresh = "\<lparr>name = ''Main_1'',
            lanes = replicate LANES \<lparr>vehicles = 0, total_wait_secs = 0, vehicles_served = 0\<rparr>,
            cycles = 0\<rparr>"
  let ?it = "\<lparr>name = ''Main_1'',
             lanes = [\<lparr>vehicles = 2, total_wait_secs = 0, vehicles_served = 0\<rparr>,
                      \<lparr>vehicles = 0, total_wait_secs = 0, vehicles_served = 0\<rparr>,
                      \<lparr>vehicles = 5, total_wait_secs = 0, vehicles_served = 0\<rparr>,
                      \<lparr>vehicles = 1, total_wait_secs = 0, vehicles_served = (0 :: c_long)\<rparr>],
             cycles = (0 :: c_int)\<rparr>"
  have h1: "create_intersection (intersection_alloc_ok ?env) (lanes_alloc_ok ?env) ''Main_1'' = Inr ?fresh"
    by (simp add: create_intersection_def)
  have h2: "input_vehicle_counts ?fresh (stdin ?env) = Inr (?it, [Some (- 4)])"
    by code_simp
  have h3: "fst (scanf_d [Some (- 4 :: c_int)]) = None \<or>
    (\<exists>n. fst (scanf_d [Some (- 4 :: c_int)]) = Some n \<and> n \<le>s 0)"
    by (simp add: word_sle_eq)
  from invalid_cycle_count_exits [OF h1 h2 h3] h1 h2 h3 show ?thesis
    by blast
qed

lemma input_loop_exits_iff:
  "(\<exists>e. input_loop idxs it inp = Inl e) \<longleftrightarrow>
     \<not> (length idxs \<le> length inp \<and> (\<forall>k<length idxs. inp ! k \<noteq> None))"
proof (induction idxs arbitrary: it inp)
  case Nil
  show ?case by simp
next
  case (Cons i idxs)
  show ?case
  proof (cases inp)
    case Nil
    then show ?thesis by simp
  next
    case (Cons x xs)
    show ?thesis
    proof (cases x)
      case None
      with \<open>inp = x # xs\<close> show ?thesis by auto
    next
      case (Some v)
      let ?it = "it\<lparr>lanes := (lanes it)[i := (lanes it ! i)\<lparr>vehicles := (if v <s 0 then 0 else v)\<rparr>]\<rparr>"
      have "(\<exists>e. input_loop (i # idxs) it inp = Inl e) \<longleftrightarrow> (\<exists>e. input_loop idxs ?it xs = Inl e)"
        using Some \<open>inp = x # xs\<close> by (simp add: Let_def)
      also have "\<dots> \<longleftrightarrow> \<not> (length idxs \<le> length xs \<and> (\<forall>k<length idxs. xs ! k \<noteq> None))"
        by (rule Cons.IH)
      also have "\<dots> \<longleftrightarrow> \<not> (length (i # idxs) \<le> length inp \<and> (\<forall>k<length (i # idxs). inp ! k \<noteq> None))"
        using Some \<open>inp = x # xs\<close> by (auto simp: less_Suc_eq_0_disj)
      finally show ?thesis .
    qed
  qed
qed

lemma input_four_lanes:
  assumes "length (lanes it) = LANES"
  shows "input_vehicle_counts it (Some v0 # Some v1 # Some v2 # Some v3 # rest) =
           Inr (it\<lparr>lanes := [(lanes it ! 0)\<lparr>vehicles := (if v0 <s 0 then 0 else v0)\<rparr>,
                               (lanes it ! 1)\<lparr>vehicles := (if v1 <s 0 then 0 else v1)\<rparr>,
                               (lanes it ! 2)\<lparr>vehicles := (if v2 <s 0 then 0 else v2)\<rparr>,
                               (lanes it ! 3)\<lparr>vehicles := (if v3 <s 0 then 0 else v3)\<rparr>]\<rparr>, rest)"
proof -
  obtain a b c d where "lanes it = [a, b, c, d]"
    using assms by (rule length4E)
  then show ?thesis
    by (simp add: input_vehicle_counts_def upt_LANES Let_def)
qed

text \<open>
  C10.  When the four lane counts are read as integers, \<open>input_vehicle_counts\<close> does
  not exit: it stores each count, a negative one as 0, and leaves the rest of the
  input to the caller; with a positive number of cycles \<open>n\<close> entered next, the run
  simulates \<open>n\<close> cycles from that state and ends with status 0.  In general
  \<open>input_vehicle_counts\<close> exits exactly when one of the first \<open>LANES\<close> conversions
  fails, whatever the values read.
\<close>

theorem negative_lane_count_clamped:
  assumes "intersection_alloc_ok env" and "lanes_alloc_ok env"
    and "stdin env = Some v0 # Some v1 # Some v2 # Some v3 # rest"
  shows "let seeded = \<lparr>name = ''Main_1'',
                       lanes = map (\<lambda>v. \<lparr>vehicles = (if v <s 0 then 0 else v),
                                         total_wait_secs = 0, vehicles_served = 0\<rparr>)
                                   [v0, v1, v2, v3],
                       cycles = 0\<rparr>
         in (\<exists>it0. create_intersection (intersection_alloc_ok env) (lanes_alloc_ok env) ''Main_1''
                      = Inr it0 \<and>
                    input_vehicle_counts it0 (stdin env) = Inr (seeded, rest)) \<and>
            (\<forall>n rest'. rest = Some n # rest' \<and> 0 <s n \<longrightarrow>
               main env = \<lparr>status = 0,
                            state = Some (fold (simulate_cycle (rand_calls env))
                                               [0..<nat (sint n)] seeded)\<rparr>) \<and>
            (\<forall>it inp. (\<exists>e. input_vehicle_counts it inp = Inl e) \<longleftrightarrow>
                         \<not> (LANES \<le> length inp \<and> (\<forall>k<LANES. inp ! k \<noteq> None)))"
proof -
  define seeded where "seeded = \<lparr>name = ''Main_1'',
                       lanes = map (\<lambda>v. \<lparr>vehicles = (if v <s 0 then 0 else v),
                                         total_wait_secs = 0, vehicles_served = (0 :: c_long)\<rparr>)
                                   [v0, v1, v2, v3],
                       cycles = (0 :: c_int)\<rparr>"
  define it0 where "it0 = \<lparr>name = ''Main_1'',
      lanes = replicate LANES \<lparr>vehicles = 0, total_wait_secs = 0, vehicles_served = (0 :: c_long)\<rparr>,
      cycles = (0 :: c_int)\<rparr>"
  have c: "create_intersection (intersection_alloc_ok env) (lanes_alloc_ok env) ''Main_1'' = Inr it0"
    using assms(1,2) by (simp add: create_intersection_def it0_def)
  have "length (lanes it0) = LANES"
    by (simp add: it0_def)
  from input_four_lanes [OF this, of v0 v1 v2 v3 rest]
  have i: "input_vehicle_counts it0 (stdin env) = Inr (seeded, rest)"
    by (simp add: assms(3) it0_def seeded_def LANES_def numeral_eq_Suc)
  have m: "main env = \<lparr>status = 0,
                        state = Some (fold (simulate_cycle (rand_calls env))
                                           [0..<nat (sint n)] seeded)\<rparr>"
    if "rest = Some n # rest'" "0 <s n" for n rest'
    using that c i by (simp add: main_def word_sle_eq word_sless_alt)
  have e: "(\<exists>e. input_vehicle_counts it inp = Inl e) \<longleftrightarrow>
             \<not> (LANES \<le> length inp \<and> (\<forall>k<LANES. inp ! k \<noteq> None))" for it inp
    using input_loop_exits_iff [of "[0..<LANES]" it inp]
    by (simp add: input_vehicle_counts_def)
  show ?thesis
    unfolding Let_def seeded_def [symmetric] using c i m e by blast
qed

theorem negative_lane_count_clamped_witness:
  "intersection_alloc_ok \<lparr>intersection_alloc_ok = True, lanes_alloc_ok = True,
        stdin = [Some (- 3), Some 2, Some 0, Some 1, Some 1], rand_calls = (\<lambda>i. 2)\<rparr> \<and>
   lanes_alloc_ok \<lparr>intersection_alloc_ok = True, lanes_alloc_ok = True,
        stdin = [Some (- 3), Some 2, Some 0, Some 1, Some 1], rand_calls = (\<lambda>i. 2)\<rparr> \<and>
   stdin \<lparr>intersection_alloc_ok = True, lanes_alloc_ok = True,
        stdin = [Some (- 3), Some 2, Some 0, Some 1, Some 1], rand_calls = (\<lambda>i. 2)\<rparr>
     = Some (- 3) # Some 2 # Some 0 # Some 1 # [Some 1] \<and>
   [Some (1 :: c_int)] = Some 1 # [] \<and> 0 <s (1 :: c_int) \<and>
   main \<lparr>intersection_alloc_ok = True, lanes_alloc_ok = True,
        stdin = [Some (- 3), Some 2, Some 0, Some 1, Some 1], rand_calls = (\<lambda>i. 2)\<rparr>
     = \<lparr>status = 0,
        state = Some \<lparr>name = ''Main_1'',
          lanes = [\<lparr>vehicles = 2, total_wait_secs = 0, vehicles_served = 0\<rparr>,
                   \<lparr>vehicles = 2, total_wait_secs = 10, vehicles_served = 2\<rparr>,
                   \<lparr>vehicles = 2, total_wait_secs = 0, vehicles_served = 0\<rparr>,
                   \<lparr>vehicles = 2, total_wait_secs = 19, vehicles_served = 1\<rparr>],
          cycles = 1\<rparr>\<rparr>"
proof -
  let ?env = "\<lparr>intersection_alloc_ok = True, lanes_alloc_ok = True,
        stdin = [Some (- 3), Some 2, Some 0, Some 1, Some (1 :: c_int)],
        rand_calls = (\<lambda>i. 2 :: c_int)\<rparr>"
  have h: "intersection_alloc_ok ?env" "lanes_alloc_ok ?env"
    "stdin ?env = Some (- 3) # Some 2 # Some 0 # Some 1 # [Some 1]"
    by simp_all
  have n: "[Some (1 :: c_int)] = Some 1 # [] \<and> 0 <s (1 :: c_int)"
    by (simp add: word_sless_alt)
  from negative_lane_count_clamped [OF h] n
  have "main ?env = \<lparr>status = 0,
      state = Some (fold (simulate_cycle (rand_calls ?env)) [0..<nat (sint (1 :: c_int))]
        \<lparr>name = ''Main_1'',
         lanes = map (\<lambda>v. \<lparr>vehicles = (if v <s 0 then 0 else v),
                           total_wait_secs = 0, vehicles_served = 0\<rparr>) [- 3, 2, 0, 1],
         cycles = 0\<rparr>)\<rparr>"
    unfolding Let_def by blast
  also have "fold (simulate_cycle (rand_calls ?env)) [0..<nat (sint (1 :: c_int))]
        \<lparr>name = ''Main_1'',
         lanes = map (\<lambda>v. \<lparr>vehicles = (if v <s 0 then 0 else v),
                           total_wait_secs = 0, vehicles_served = 0\<rparr>) [- 3, 2, 0, 1],
         cycles = 0\<rparr>
      = \<lparr>name = ''Main_1'',
          lanes = [\<lparr>vehicles = 2, total_wait_secs = 0, vehicles_served = 0\<rparr>,
                   \<lparr>vehicles = 2, total_wait_secs = 10, vehicles_served = 2\<rparr>,
                   \<lparr>vehicles = 2, total_wait_secs = 0, vehicles_served = 0\<rparr>,
                   \<lparr>vehicles = 2, total_wait_secs = 19, vehicles_served = 1\<rparr>],
          cycles = 1\<rparr>"
    by code_simp
  finally show ?thesis
    using h n by simp
qed

section \<open>The cycle counter and the green phases\<close>

lemma green_vehicles_all:
  "sint (vehicles ((lane_tick True ^^ n) l)) = sint (vehicles l) - min (max (sint (vehicles l)) 0) (int n)"
proof (cases "0 \<le>s vehicles l")
  case True
  then have "0 \<le> sint (vehicles l)"
    by (simp add: word_sle_eq)
  with green_vehicles [OF True, of n] show ?thesis
    by simp
next
  case False
  then have "\<not> 0 <s vehicles l" "sint (vehicles l) < 0"
    by (simp_all add: word_sle_eq word_sless_alt)
  then show ?thesis
    by (simp add: funpow_lane_tick_stop)
qed

lemma green_served_all:
  "vehicles_served ((lane_tick True ^^ n) l) =
     vehicles_served l + word_of_int (min (max (sint (vehicles l)) 0) (int n))"
proof (cases "0 \<le>s vehicles l")
  case True
  then have "0 \<le> sint (vehicles l)"
    by (simp add: word_sle_eq)
  with green_served [OF True, of n] show ?thesis
    by simp
next
  case False
  then have "\<not> 0 <s vehicles l" "sint (vehicles l) < 0"
    by (simp_all add: word_sle_eq word_sless_alt)
  then show ?thesis
    by (simp add: funpow_lane_tick_stop)
qed

lemma cycle_progress:
  assumes len: "length ls = LANES" and k: "k \<le> LANES"
  shows "length (fold green_phase [0..<k] ls) = LANES \<and>
         (\<forall>j<LANES.
            (if j < k
             then sint (vehicles (fold green_phase [0..<k] ls ! j))
                    = sint (vehicles (ls ! j)) - phase_departures (vehicles (ls ! j)) \<and>
                  vehicles_served (fold green_phase [0..<k] ls ! j)
                    = vehicles_served (ls ! j) + word_of_int (phase_departures (vehicles (ls ! j)))
             else vehicles (fold green_phase [0..<k] ls ! j) = vehicles (ls ! j) \<and>
                  vehicles_served (fold green_phase [0..<k] ls ! j) = vehicles_served (ls ! j)))"
  using k
proof (induction k)
  case 0
  show ?case
    using len by simp
next
  case (Suc k)
  let ?ls = "fold green_phase [0..<k] ls"
  let ?n = "nat (sint (green_seconds (vehicles (?ls ! k))))"
  from Suc have k: "k < LANES" and len': "length ?ls = LANES"
    and IH: "\<And>j. j < LANES \<Longrightarrow>
      (if j < k
       then sint (vehicles (?ls ! j)) = sint (vehicles (ls ! j)) - phase_departures (vehicles (ls ! j)) \<and>
            vehicles_served (?ls ! j)
              = vehicles_served (ls ! j) + word_of_int (phase_departures (vehicles (ls ! j)))
       else vehicles (?ls ! j) = vehicles (ls ! j) \<and>
            vehicles_served (?ls ! j) = vehicles_served (ls ! j))"
    by simp_all
  have step: "green_phase k ?ls ! j = (lane_tick (j = k) ^^ ?n) (?ls ! j)" if "j < LANES" for j
    using that by (rule green_phase_nth [OF len' k])
  have "if j < Suc k
        then sint (vehicles (green_phase k ?ls ! j))
               = sint (vehicles (ls ! j)) - phase_departures (vehicles (ls ! j)) \<and>
             vehicles_served (green_phase k ?ls ! j)
               = vehicles_served (ls ! j) + word_of_int (phase_departures (vehicles (ls ! j)))
        else vehicles (green_phase k ?ls ! j) = vehicles (ls ! j) \<and>
             vehicles_served (green_phase k ?ls ! j) = vehicles_served (ls ! j)"
    if j: "j < LANES" for j
  proof (cases "j = k")
    case True
    from IH [OF k] have same: "vehicles (?ls ! k) = vehicles (ls ! k)"
      "vehicles_served (?ls ! k) = vehicles_served (ls ! k)"
      by simp_all
    have "green_phase k ?ls ! k = (lane_tick True ^^ ?n) (?ls ! k)"
      using step [OF k] by simp
    then show ?thesis
      using True same green_seconds_range [of "vehicles (ls ! k)"]
      by (simp add: green_vehicles_all green_served_all phase_departures_def)
  next
    case False
    have "green_phase k ?ls ! j = (lane_tick False ^^ ?n) (?ls ! j)"
      using step [OF j] False by simp
    then have "vehicles (green_phase k ?ls ! j) = vehicles (?ls ! j)"
      "vehicles_served (green_phase k ?ls ! j) = vehicles_served (?ls ! j)"
      by (simp_all add: idle_vehicles idle_served)
    moreover have "j < Suc k \<longleftrightarrow> j < k"
      using False by auto
    ultimately show ?thesis
      using IH [OF j] by simp
  qed
  then show ?case
    using len' k by (simp only: fold_green_phase_Suc length_green_phase) simp
qed


lemma run_one_cycle_states_nth:
  "k \<le> LANES \<Longrightarrow>
     run_one_cycle_states it ! k = it\<lparr>lanes := fold green_phase [0..<k] (lanes it)\<rparr>"
  by (simp add: run_one_cycle_states_def Let_def nth_append del: upt_Suc)

lemma run_one_cycle_states_last:
  "last (run_one_cycle_states it) =
     it\<lparr>lanes := fold green_phase [0..<LANES] (lanes it), cycles := cycles it + 1\<rparr>"
  by (simp add: run_one_cycle_states_def Let_def)

text \<open>
  C8.  \<open>run_one_cycle\<close> passes through \<open>LANES + 2\<close> states and returns the last.  In the
  state after \<open>k\<close> iterations of the lane loop, for every \<open>k\<close> from 0 to \<open>LANES\<close>, the
  cycle counter still has the value it had at the call, and exactly the lanes below
  \<open>k\<close> have had their green phase: such a lane has lost, and has served, the departures
  of one green phase computed from the count it had at the call, and the lanes from
  \<open>k\<close> on still have the count and the \<open>vehicles_served\<close> they had at the call.
  Iteration \<open>k\<close> is the green phase of lane \<open>k\<close>.  The last state has the lanes of the
  state after all \<open>LANES\<close> iterations and the counter incremented by one, once.  The
  increment is that of a 32-bit \<open>int\<close>: as a signed number the counter goes up by one
  whenever it is below \<open>INT_MAX\<close>.  The name is unchanged.
\<close>

theorem run_one_cycle_counts_once:
  assumes "length (lanes it) = LANES"
  shows "length (run_one_cycle_states it) = LANES + 2 \<and>
         run_one_cycle (Some it) = Some (last (run_one_cycle_states it)) \<and>
         (\<forall>k\<le>LANES.
            cycles (run_one_cycle_states it ! k) = cycles it \<and>
            (\<forall>j<LANES.
               sint (vehicles (lanes (run_one_cycle_states it ! k) ! j))
                 = sint (vehicles (lanes it ! j))
                   - (if j < k then phase_departures (vehicles (lanes it ! j)) else 0) \<and>
               vehicles_served (lanes (run_one_cycle_states it ! k) ! j)
                 = vehicles_served (lanes it ! j)
                   + word_of_int (if j < k then phase_departures (vehicles (lanes it ! j)) else 0))) \<and>
         (\<forall>k<LANES. lanes (run_one_cycle_states it ! Suc k)
                       = green_phase k (lanes (run_one_cycle_states it ! k))) \<and>
         lanes (last (run_one_cycle_states it)) = lanes (run_one_cycle_states it ! LANES) \<and>
         lanes (last (run_one_cycle_states it))
           = green_phase 3 (green_phase 2 (green_phase 1 (green_phase 0 (lanes it)))) \<and>
         cycles (last (run_one_cycle_states it)) = cycles it + 1 \<and>
         (sint (cycles it) < INT_MAX \<longrightarrow>
            sint (cycles (last (run_one_cycle_states it))) = sint (cycles it) + 1) \<and>
         name (last (run_one_cycle_states it)) = name it"
proof -
  let ?states = "run_one_cycle_states it"
  have c1: "length ?states = LANES + 2"
    by (simp add: run_one_cycle_states_def Let_def)
  have c2: "run_one_cycle (Some it) = Some (last ?states)"
    by (simp add: run_one_cycle_states_last)
  have c3: "cycles (?states ! k) = cycles it \<and>
            (\<forall>j<LANES.
               sint (vehicles (lanes (?states ! k) ! j))
                 = sint (vehicles (lanes it ! j))
                   - (if j < k then phase_departures (vehicles (lanes it ! j)) else 0) \<and>
               vehicles_served (lanes (?states ! k) ! j)
                 = vehicles_served (lanes it ! j)
                   + word_of_int (if j < k then phase_departures (vehicles (lanes it ! j)) else 0))"
    if k: "k \<le> LANES" for k
    using cycle_progress [OF assms k] by (simp add: run_one_cycle_states_nth [OF k])
  have c4: "lanes (?states ! Suc k) = green_phase k (lanes (?states ! k))" if "k < LANES" for k
    using that by (simp add: run_one_cycle_states_nth del: upt_Suc) simp
  have c5: "lanes (last ?states) = lanes (?states ! LANES)"
    by (simp add: run_one_cycle_states_last run_one_cycle_states_nth)
  have c6: "lanes (last ?states)
           = green_phase 3 (green_phase 2 (green_phase 1 (green_phase 0 (lanes it))))"
    by (simp add: run_one_cycle_states_last upt_LANES)
  have c7: "cycles (last ?states) = cycles it + 1"
    by (simp add: run_one_cycle_states_last)
  have c8: "sint (cycles it) < INT_MAX \<longrightarrow> sint (cycles (last ?states)) = sint (cycles it) + 1"
    by (simp add: run_one_cycle_states_last INT_MAX_def sint_succ_c_int)
  have c9: "name (last ?states) = name it"
    by (simp add: run_one_cycle_states_last)
  from c1 c2 c3 c4 c5 c6 c7 c8 c9 show ?thesis
    by blast
qed

theorem run_one_cycle_counts_once_witness:
  "length (lanes
     \<lparr>name = ''Main_1'',
      lanes = [\<lparr>vehicles = 2, total_wait_secs = 0, vehicles_served = 0\<rparr>,
              \<lparr>vehicles = 0, total_wait_secs = 0, vehicles_served = 0\<rparr>,
              \<lparr>vehicles = 50, total_wait_secs = 0, vehicles_served = 0\<rparr>,
              \<lparr>vehicles = 1, total_wait_secs = 0, vehicles_served = 0\<rparr>],
      cycles = 6\<rparr>) = LANES \<and>
   sint (cycles
     \<lparr>name = ''Main_1'',
      lanes = [\<lparr>vehicles = 2, total_wait_secs = 0, vehicles_served = 0\<rparr>,
              \<lparr>vehicles = 0, total_wait_secs = 0, vehicles_served = 0\<rparr>,
              \<lparr>vehicles = 50, total_wait_secs = 0, vehicles_served = 0\<rparr>,
              \<lparr>vehicles = 1, total_wait_secs = 0, vehicles_served = 0\<rparr>],
      cycles = 6\<rparr>) < INT_MAX \<and>
   run_one_cycle_states
     \<lparr>name = ''Main_1'',
      lanes = [\<lparr>vehicles = 2, total_wait_secs = 0, vehicles_served = 0\<rparr>,
              \<lparr>vehicles = 0, total_wait_secs = 0, vehicles_served = 0\<rparr>,
              \<lparr>vehicles = 50, total_wait_secs = 0, vehicles_served = 0\<rparr>,
              \<lparr>vehicles = 1, total_wait_secs = 0, vehicles_served = 0\<rparr>],
      cycles = 6\<rparr>
   = [\<lparr>name = ''Main_1'',
      lanes = [\<lparr>vehicles = 2, total_wait_secs = 0, vehicles_served = 0\<rparr>,
              \<lparr>vehicles = 0, total_wait_secs = 0, vehicles_served = 0\<rparr>,
              \<lparr>vehicles = 50, total_wait_secs = 0, vehicles_served = 0\<rparr>,
              \<lparr>vehicles = 1, total_wait_secs = 0, vehicles_served = 0\<rparr>],
      cycles = 6\<rparr>,
      \<lparr>name = ''Main_1'',
      lanes = [\<lparr>vehicles = 0, total_wait_secs = 0, vehicles_served = 2\<rparr>,
              \<lparr>vehicles = 0, total_wait_secs = 0, vehicles_served = 0\<rparr>,
              \<lparr>vehicles = 50, total_wait_secs = 450, vehicles_served = 0\<rparr>,
              \<lparr>vehicles = 1, total_wait_secs = 9, vehicles_served = 0\<rparr>],
      cycles = 6\<rparr>,
      \<lparr>name = ''Main_1'',
      lanes = [\<lparr>vehicles = 0, total_wait_secs = 0, vehicles_served = 2\<rparr>,
              \<lparr>vehicles = 0, total_wait_secs = 0, vehicles_served = 0\<rparr>,
              \<lparr>vehicles = 50, total_wait_secs = 700, vehicles_served = 0\<rparr>,
              \<lparr>vehicles = 1, total_wait_secs = 14, vehicles_served = 0\<rparr>],
      cycles = 6\<rparr>,
      \<lparr>name = ''Main_1'',
      lanes = [\<lparr>vehicles = 0, total_wait_secs = 0, vehicles_served = 2\<rparr>,
              \<lparr>vehicles = 0, total_wait_secs = 0, vehicles_served = 0\<rparr>,
              \<lparr>vehicles = 10, total_wait_secs = 700, vehicles_served = 40\<rparr>,
              \<lparr>vehicles = 1, total_wait_secs = 54, vehicles_served = 0\<rparr>],
      cycles = 6\<rparr>,
      \<lparr>name = ''Main_1'',
      lanes = [\<lparr>vehicles = 0, total_wait_secs = 0, vehicles_served = 2\<rparr>,
              \<lparr>vehicles = 0, total_wait_secs = 0, vehicles_served = 0\<rparr>,
              \<lparr>vehicles = 10, total_wait_secs = 770, vehicles_served = 40\<rparr>,
              \<lparr>vehicles = 0, total_wait_secs = 54, vehicles_served = 1\<rparr>],
      cycles = 6\<rparr>,
      \<lparr>name = ''Main_1'',
      lanes = [\<lparr>vehicles = 0, total_wait_secs = 0, vehicles_served = 2\<rparr>,
              \<lparr>vehicles = 0, total_wait_secs = 0, vehicles_served = 0\<rparr>,
              \<lparr>vehicles = 10, total_wait_secs = 770, vehicles_served = 40\<rparr>,
              \<lparr>vehicles = 0, total_wait_secs = 54, vehicles_served = 1\<rparr>],
      cycles = 7\<rparr>] \<and>
   run_one_cycle (Some
     \<lparr>name = ''Main_1'',
      lanes = [\<lparr>vehicles = 2, total_wait_secs = 0, vehicles_served = 0\<rparr>,
              \<lparr>vehicles = 0, total_wait_secs = 0, vehicles_served = 0\<rparr>,
              \<lparr>vehicles = 50, total_wait_secs = 0, vehicles_served = 0\<rparr>,
              \<lparr>vehicles = 1, total_wait_secs = 0, vehicles_served = 0\<rparr>],
      cycles = 6\<rparr>)
   = Some
     \<lparr>name = ''Main_1'',
      lanes = [\<lparr>vehicles = 0, total_wait_secs = 0, vehicles_served = 2\<rparr>,
              \<lparr>vehicles = 0, total_wait_secs = 0, vehicles_served = 0\<rparr>,
              \<lparr>vehicles = 10, total_wait_secs = 770, vehicles_served = 40\<rparr>,
              \<lparr>vehicles = 0, total_wait_secs = 54, vehicles_served = 1\<rparr>],
      cycles = 7\<rparr> \<and>
   phase_departures 2 = 2 \<and> phase_departures 50 = 40"
proof -
  let ?start = "\<lparr>name = ''Main_1'',
      lanes = [\<lparr>vehicles = 2, total_wait_secs = 0, vehicles_served = 0\<rparr>,
              \<lparr>vehicles = 0, total_wait_secs = 0, vehicles_served = 0\<rparr>,
              \<lparr>vehicles = 50, total_wait_secs = 0, vehicles_served = 0\<rparr>,
              \<lparr>vehicles = 1, total_wait_secs = 0, vehicles_served = (0 :: c_long)\<rparr>],
      cycles = (6 :: c_int)\<rparr>"
  have h: "length (lanes ?start) = LANES"
    by (simp add: LANES_def)
  have c: "sint (cycles ?start) < INT_MAX"
    by (simp add: INT_MAX_def)
  have s: "run_one_cycle_states ?start
   = [\<lparr>name = ''Main_1'',
      lanes = [\<lparr>vehicles = 2, total_wait_secs = 0, vehicles_served = 0\<rparr>,
              \<lparr>vehicles = 0, total_wait_secs = 0, vehicles_served = 0\<rparr>,
              \<lparr>vehicles = 50, total_wait_secs = 0, vehicles_served = 0\<rparr>,
              \<lparr>vehicles = 1, total_wait_secs = 0, vehicles_served = 0\<rparr>],
      cycles = 6\<rparr>,
      \<lparr>name = ''Main_1'',
      lanes = [\<lparr>vehicles = 0, total_wait_secs = 0, vehicles_served = 2\<rparr>,
              \<lparr>vehicles = 0, total_wait_secs = 0, vehicles_served = 0\<rparr>,
              \<lparr>vehicles = 50, total_wait_secs = 450, vehicles_served = 0\<rparr>,
              \<lparr>vehicles = 1, total_wait_secs = 9, vehicles_served = 0\<rparr>],
      cycles = 6\<rparr>,
      \<lparr>name = ''Main_1'',
      lanes = [\<lparr>vehicles = 0, total_wait_secs = 0, vehicles_served = 2\<rparr>,
              \<lparr>vehicles = 0, total_wait_secs = 0, vehicles_served = 0\<rparr>,
              \<lparr>vehicles = 50, total_wait_secs = 700, vehicles_served = 0\<rparr>,
              \<lparr>vehicles = 1, total_wait_secs = 14, vehicles_served = 0\<rparr>],
      cycles = 6\<rparr>,
      \<lparr>name = ''Main_1'',
      lanes = [\<lparr>vehicles = 0, total_wait_secs = 0, vehicles_served = 2\<rparr>,
              \<lparr>vehicles = 0, total_wait_secs = 0, vehicles_served = 0\<rparr>,
              \<lparr>vehicles = 10, total_wait_secs = 700, vehicles_served = 40\<rparr>,
              \<lparr>vehicles = 1, total_wait_secs = 54, vehicles_served = 0\<rparr>],
      cycles = 6\<rparr>,
      \<lparr>name = ''Main_1'',
      lanes = [\<lparr>vehicles = 0, total_wait_secs = 0, vehicles_served = 2\<rparr>,
              \<lparr>vehicles = 0, total_wait_secs = 0, vehicles_served = 0\<rparr>,
              \<lparr>vehicles = 10, total_wait_secs = 770, vehicles_served = 40\<rparr>,
              \<lparr>vehicles = 0, total_wait_secs = 54, vehicles_served = 1\<rparr>],
      cycles = 6\<rparr>,
      \<lparr>name = ''Main_1'',
      lanes = [\<lparr>vehicles = 0, total_wait_secs = 0, vehicles_served = 2\<rparr>,
              \<lparr>vehicles = 0, total_wait_secs = 0, vehicles_served = 0\<rparr>,
              \<lparr>vehicles = 10, total_wait_secs = 770, vehicles_served = 40\<rparr>,
              \<lparr>vehicles = 0, total_wait_secs = 54, vehicles_served = 1\<rparr>],
      cycles = 7\<rparr>]"
    by code_simp
  have d: "phase_departures 2 = 2 \<and> phase_departures 50 = 40"
    by (simp add: phase_departures_def green_seconds_def calculate_green_time_def
        BASE_GREEN_def MAX_GREEN_def)
  from run_one_cycle_counts_once [OF h]
  have "run_one_cycle (Some ?start) = Some (last (run_one_cycle_states ?start))"
    by blast
  then have "run_one_cycle (Some ?start) = Some
     \<lparr>name = ''Main_1'',
      lanes = [\<lparr>vehicles = 0, total_wait_secs = 0, vehicles_served = 2\<rparr>,
              \<lparr>vehicles = 0, total_wait_secs = 0, vehicles_served = 0\<rparr>,
              \<lparr>vehicles = 10, total_wait_secs = 770, vehicles_served = 40\<rparr>,
              \<lparr>vehicles = 0, total_wait_secs = 54, vehicles_served = 1\<rparr>],
      cycles = 7\<rparr>"
    by (simp only: s) simp
  with h c s d show ?thesis
    by (simp only:)
qed

section \<open>Statistics aggregator: properties\<close>

lemma round_half_even_int:
  assumes "0 < d"
  shows "\<bar>2 * (round_half_even n d * d - n)\<bar> \<le> d"
proof -
  define q where "q = n div d"
  define r where "r = n mod d"
  have n: "n = q * d + r"
    by (simp add: q_def r_def)
  have r: "0 \<le> r" "r < d"
    using assms by (simp_all add: r_def)
  have "round_half_even n d = q \<and> 2 * r \<le> d \<or> round_half_even n d = q + 1 \<and> d \<le> 2 * r"
    by (auto simp: round_half_even_def Let_def q_def [symmetric] r_def [symmetric])
  then show ?thesis
    using r by (auto simp: n algebra_simps)
qed

lemma round_half_even_error:
  assumes "0 < d"
  shows "\<bar>real_of_int (round_half_even n d) - real_of_int n / real_of_int d\<bar> \<le> 1 / 2"
proof -
  define x where "x = real_of_int (round_half_even n d * d - n)"
  have "2 * \<bar>round_half_even n d * d - n\<bar> \<le> d"
    using round_half_even_int [OF assms, of n] by linarith
  then have "real_of_int (2 * \<bar>round_half_even n d * d - n\<bar>) \<le> real_of_int d"
    by (simp only: of_int_le_iff)
  then have x: "\<bar>x\<bar> \<le> real_of_int d / 2"
    by (simp add: x_def)
  have e: "real_of_int (round_half_even n d) - real_of_int n / real_of_int d = x / real_of_int d"
    using assms by (simp add: x_def field_simps)
  have "\<bar>x / real_of_int d\<bar> = \<bar>x\<bar> / real_of_int d"
    using assms by (simp add: abs_divide)
  also have "\<dots> \<le> real_of_int d / 2 / real_of_int d"
    using x assms by (intro divide_right_mono) simp_all
  also have "\<dots> = 1 / 2"
    using assms by simp
  finally show ?thesis
    by (simp only: e)
qed

lemma floor_log2_lower:
  assumes "0 < n" "0 < d" "0 \<le> floor_log2 n d"
  shows "d * 2 ^ nat (floor_log2 n d) \<le> n"
proof -
  define k where "k = bitlen n - bitlen d"
  show ?thesis
  proof (cases "if 0 \<le> k then d * 2 ^ nat k \<le> n else d \<le> n * 2 ^ nat (- k)")
    case True
    then have "floor_log2 n d = k"
      unfolding floor_log2_def k_def [symmetric] Let_def by simp
    with True assms(3) show ?thesis
      by simp
  next
    case False
    then have f: "floor_log2 n d = k - 1"
      unfolding floor_log2_def k_def [symmetric] Let_def by simp
    with assms(3) have k: "1 \<le> k"
      by simp
    have bd: "d < 2 ^ nat (bitlen d)" and bn: "2 ^ nat (bitlen n - 1) \<le> n"
      using bitlen_bounds [OF assms(1)] bitlen_bounds [OF assms(2)] by simp_all
    have "nat (bitlen n - 1) = nat (bitlen d) + nat (k - 1)"
      using k bitlen_nonneg [of d] by (simp add: k_def nat_add_distrib [symmetric])
    then have "(2 :: int) ^ nat (bitlen n - 1) = 2 ^ nat (bitlen d) * 2 ^ nat (k - 1)"
      by (simp add: power_add)
    then have "2 ^ nat (bitlen d) * (2 :: int) ^ nat (k - 1) \<le> n"
      using bn by simp
    moreover have "d * 2 ^ nat (k - 1) \<le> 2 ^ nat (bitlen d) * (2 :: int) ^ nat (k - 1)"
      using bd by (intro mult_right_mono) simp_all
    ultimately have "d * 2 ^ nat (k - 1) \<le> n"
      by (rule order_trans [rotated])
    then show ?thesis
      by (simp add: f)
  qed
qed

lemma round_to_double_small:
  assumes "0 < d" "\<bar>n\<bar> < 2 ^ 24 * d"
  shows "\<bar>double_value (round_to_double n d) - real_of_int n / real_of_int d\<bar> \<le> 1 / 2 ^ 30"
proof (cases "n = 0")
  case True
  then show ?thesis
    by (simp add: round_to_double_def double_value_def)
next
  case False
  define L where "L = floor_log2 \<bar>n\<bar> d"
  define e where "e = L - 52"
  have "L \<le> 23"
  proof (rule ccontr)
    assume "\<not> L \<le> 23"
    then have L: "24 \<le> L"
      by simp
    then have "d * 2 ^ nat L \<le> \<bar>n\<bar>"
      unfolding L_def using False assms(1) by (intro floor_log2_lower) simp_all
    moreover have "(2 :: int) ^ 24 \<le> 2 ^ nat L"
      using L by (intro power_increasing) simp_all
    then have "d * 2 ^ 24 \<le> d * 2 ^ nat L"
      using assms(1) by (intro mult_left_mono) simp_all
    ultimately show False
      using assms(2) by (simp add: mult.commute)
  qed
  then have e: "e \<le> - 29"
    by (simp add: e_def)
  define j where "j = nat (- e)"
  have j: "29 \<le> j"
    using e by (simp add: j_def)
  define m where "m = round_half_even (n * 2 ^ j) d"
  have r: "round_to_double n d = (m, e)"
    using False e by (simp add: round_to_double_def Let_def L_def e_def m_def j_def)
  have v: "double_value (m, e) = real_of_int m / 2 ^ j"
    using e by (simp add: double_value_def j_def)
  define y where "y = real_of_int n / real_of_int d"
  have "\<bar>real_of_int m - real_of_int (n * 2 ^ j) / real_of_int d\<bar> \<le> 1 / 2"
    unfolding m_def by (rule round_half_even_error [OF assms(1)])
  moreover have "real_of_int (n * 2 ^ j) / real_of_int d = y * 2 ^ j"
    by (simp add: y_def)
  ultimately have h: "\<bar>real_of_int m - y * 2 ^ j\<bar> \<le> 1 / 2"
    by simp
  have "real_of_int m / 2 ^ j - y = (real_of_int m - y * 2 ^ j) / 2 ^ j"
    by (simp add: field_simps)
  then have "\<bar>real_of_int m / 2 ^ j - y\<bar> = \<bar>real_of_int m - y * 2 ^ j\<bar> / 2 ^ j"
    by simp
  also have "\<dots> \<le> 1 / 2 / 2 ^ j"
    using h by (intro divide_right_mono) simp_all
  also have "\<dots> = 1 / 2 ^ Suc j"
    by simp
  also have "\<dots> \<le> 1 / 2 ^ 30"
  proof -
    have "(2 :: real) ^ 30 \<le> 2 ^ Suc j"
      using j by (intro power_increasing) simp_all
    then show ?thesis
      by (intro divide_left_mono) simp_all
  qed
  finally show ?thesis
    by (simp add: r v y_def)
qed

lemma sum_list_c_long:
  "sum_list ws = (word_of_int (sum_list (map sint ws)) :: c_long)"
  by (induction ws) simp_all

lemma sint_sum_list_c_long:
  assumes "- LONG_MAX - 1 \<le> sum_list (map sint ws)" "sum_list (map sint ws) \<le> LONG_MAX"
  shows "sint (sum_list ws :: c_long) = sum_list (map sint ws)"
proof -
  have "sint (sum_list ws :: c_long) = signed_take_bit 63 (sum_list (map sint ws))"
    by (subst sum_list_c_long) (simp only: sint_sbintrunc', simp)
  with assms show ?thesis
    by (simp add: signed_take_bit_int_eq_self LONG_MAX_def)
qed

lemma save_statistics_totals:
  assumes "length (lanes it) = LANES"
  shows "save_statistics True it =
           (let served = sum_list (map vehicles_served (lanes it));
                wait = sum_list (map total_wait_secs (lanes it))
            in Some \<lparr>cycles_run = cycles it, total_served = served,
                 total_wait_secs_sum = wait,
                 avg_wait_per_vehicle =
                   (if 0 <s served
                    then round_to_double (long_to_double wait) (long_to_double served)
                    else (0, 0))\<rparr>)"
proof -
  obtain a b c d where "lanes it = [a, b, c, d]"
    using assms by (rule length4E)
  then show ?thesis
    by (simp add: save_statistics_def upt_LANES Let_def add.assoc)
qed

lemma long_to_double_exact:
  "\<bar>sint x\<bar> < 2 ^ 53 \<Longrightarrow> long_to_double x = sint x"
  by (simp add: long_to_double_def Let_def)

text \<open>
  C5, as the code has it.  On an intersection with its four lanes \<open>save_statistics\<close>
  computes nothing when the file cannot be opened.  Otherwise \<open>total_served\<close> and
  \<open>total_wait_secs\<close> are the sums of the lanes' \<open>vehicles_served\<close> and
  \<open>total_wait_secs\<close> in 64-bit wrap-around arithmetic, which are the integer sums
  whenever those fit a \<open>long\<close>.  The average is exactly \<open>0.0\<close> when \<open>total_served\<close>
  is not positive.  When it is positive the average is the double quotient of the two
  totals converted to \<open>double\<close>, and it is within \<open>1e-9\<close> of the exact quotient
  whenever \<open>total_served < 2 ^ 53\<close>, \<open>\<bar>total_wait_secs\<bar> < 2 ^ 53\<close> and
  \<open>\<bar>total_wait_secs\<bar> < 2 ^ 24 * total_served\<close>.
\<close>

theorem save_statistics_summary:
  assumes "length (lanes it) = LANES"
  shows "save_statistics False it = None \<and>
         (\<exists>s. save_statistics True it = Some s \<and>
            cycles_run s = cycles it \<and>
            total_served s = sum_list (map vehicles_served (lanes it)) \<and>
            total_wait_secs_sum s = sum_list (map total_wait_secs (lanes it)) \<and>
            (- LONG_MAX - 1 \<le> (\<Sum>l\<leftarrow>lanes it. sint (vehicles_served l)) \<and>
             (\<Sum>l\<leftarrow>lanes it. sint (vehicles_served l)) \<le> LONG_MAX \<longrightarrow>
               sint (total_served s) = (\<Sum>l\<leftarrow>lanes it. sint (vehicles_served l))) \<and>
            (- LONG_MAX - 1 \<le> (\<Sum>l\<leftarrow>lanes it. sint (total_wait_secs l)) \<and>
             (\<Sum>l\<leftarrow>lanes it. sint (total_wait_secs l)) \<le> LONG_MAX \<longrightarrow>
               sint (total_wait_secs_sum s) = (\<Sum>l\<leftarrow>lanes it. sint (total_wait_secs l))) \<and>
            (\<not> 0 <s total_served s \<longrightarrow>
               avg_wait_per_vehicle s = (0, 0) \<and> double_value (avg_wait_per_vehicle s) = 0) \<and>
            (0 <s total_served s \<longrightarrow>
               avg_wait_per_vehicle s =
                 round_to_double (long_to_double (total_wait_secs_sum s))
                                 (long_to_double (total_served s))) \<and>
            (0 <s total_served s \<and> sint (total_served s) < 2 ^ 53 \<and>
             \<bar>sint (total_wait_secs_sum s)\<bar> < 2 ^ 53 \<and>
             \<bar>sint (total_wait_secs_sum s)\<bar> < 2 ^ 24 * sint (total_served s) \<longrightarrow>
               \<bar>double_value (avg_wait_per_vehicle s)
                  - real_of_int (sint (total_wait_secs_sum s)) / real_of_int (sint (total_served s))\<bar>
                 \<le> 1 / 10 ^ 9))"
proof -
  define served where "served = sum_list (map vehicles_served (lanes it))"
  define wait where "wait = sum_list (map total_wait_secs (lanes it))"
  define avg where "avg = (if 0 <s served
                    then round_to_double (long_to_double wait) (long_to_double served)
                    else (0, 0))"
  define s where "s = \<lparr>cycles_run = cycles it, total_served = served,
                 total_wait_secs_sum = wait, avg_wait_per_vehicle = avg\<rparr>"
  have s: "save_statistics True it = Some s"
    using save_statistics_totals [OF assms]
    by (simp add: Let_def s_def served_def wait_def avg_def)
  have none: "save_statistics False it = None"
    by (simp add: save_statistics_def)
  have f: "cycles_run s = cycles it" "total_served s = served" "total_wait_secs_sum s = wait"
    "avg_wait_per_vehicle s = avg"
    by (simp_all add: s_def)
  have si: "sint served = (\<Sum>l\<leftarrow>lanes it. sint (vehicles_served l))"
    if "- LONG_MAX - 1 \<le> (\<Sum>l\<leftarrow>lanes it. sint (vehicles_served l)) \<and>
        (\<Sum>l\<leftarrow>lanes it. sint (vehicles_served l)) \<le> LONG_MAX"
    using that sint_sum_list_c_long [of "map vehicles_served (lanes it)"]
    by (simp add: served_def comp_def)
  have wi: "sint wait = (\<Sum>l\<leftarrow>lanes it. sint (total_wait_secs l))"
    if "- LONG_MAX - 1 \<le> (\<Sum>l\<leftarrow>lanes it. sint (total_wait_secs l)) \<and>
        (\<Sum>l\<leftarrow>lanes it. sint (total_wait_secs l)) \<le> LONG_MAX"
    using that sint_sum_list_c_long [of "map total_wait_secs (lanes it)"]
    by (simp add: wait_def comp_def)
  have zero: "avg = (0, 0) \<and> double_value avg = 0" if "\<not> 0 <s served"
    using that by (simp add: avg_def double_value_def)
  have pos: "avg = round_to_double (long_to_double wait) (long_to_double served)" if "0 <s served"
    using that by (simp add: avg_def)
  have close: "\<bar>double_value avg - real_of_int (sint wait) / real_of_int (sint served)\<bar> \<le> 1 / 10 ^ 9"
    if h: "0 <s served \<and> sint served < 2 ^ 53 \<and> \<bar>sint wait\<bar> < 2 ^ 53 \<and>
        \<bar>sint wait\<bar> < 2 ^ 24 * sint served"
  proof -
    from h have p: "0 < sint served"
      by (simp add: word_sless_alt)
    with h have "long_to_double served = sint served" "long_to_double wait = sint wait"
      by (simp_all add: long_to_double_exact)
    with h have "avg = round_to_double (sint wait) (sint served)"
      by (simp add: avg_def)
    moreover from h p
    have "\<bar>double_value (round_to_double (sint wait) (sint served))
            - real_of_int (sint wait) / real_of_int (sint served)\<bar> \<le> 1 / 2 ^ 30"
      by (intro round_to_double_small) simp_all
    moreover have "(1 :: real) / 2 ^ 30 \<le> 1 / 10 ^ 9"
      by simp
    ultimately show ?thesis
      by simp
  qed
  have c1: "total_served s = sum_list (map vehicles_served (lanes it))"
    and c2: "total_wait_secs_sum s = sum_list (map total_wait_secs (lanes it))"
    by (simp_all add: f served_def wait_def)
  have c3: "- LONG_MAX - 1 \<le> (\<Sum>l\<leftarrow>lanes it. sint (vehicles_served l)) \<and>
             (\<Sum>l\<leftarrow>lanes it. sint (vehicles_served l)) \<le> LONG_MAX \<longrightarrow>
               sint (total_served s) = (\<Sum>l\<leftarrow>lanes it. sint (vehicles_served l))"
    using si by (simp add: f)
  have c4: "- LONG_MAX - 1 \<le> (\<Sum>l\<leftarrow>lanes it. sint (total_wait_secs l)) \<and>
             (\<Sum>l\<leftarrow>lanes it. sint (total_wait_secs l)) \<le> LONG_MAX \<longrightarrow>
               sint (total_wait_secs_sum s) = (\<Sum>l\<leftarrow>lanes it. sint (total_wait_secs l))"
    using wi by (simp add: f)
  have c5: "\<not> 0 <s total_served s \<longrightarrow>
               avg_wait_per_vehicle s = (0, 0) \<and> double_value (avg_wait_per_vehicle s) = 0"
    using zero unfolding f by blast
  have c6: "0 <s total_served s \<longrightarrow>
               avg_wait_per_vehicle s =
                 round_to_double (long_to_double (total_wait_secs_sum s))
                                 (long_to_double (total_served s))"
    using pos by (simp add: f)
  have c7: "0 <s total_served s \<and> sint (total_served s) < 2 ^ 53 \<and>
             \<bar>sint (total_wait_secs_sum s)\<bar> < 2 ^ 53 \<and>
             \<bar>sint (total_wait_secs_sum s)\<bar> < 2 ^ 24 * sint (total_served s) \<longrightarrow>
               \<bar>double_value (avg_wait_per_vehicle s)
                  - real_of_int (sint (total_wait_secs_sum s)) / real_of_int (sint (total_served s))\<bar>
                 \<le> 1 / 10 ^ 9"
    using close unfolding f by blast
  show ?thesis
    apply (intro conjI exI [of _ s])
            apply (rule none)
           apply (rule s)
          apply (rule f(1))
         apply (rule c1)
        apply (rule c2)
       apply (rule c3)
      apply (rule c4)
     apply (rule c5)
    apply (rule c6)
    apply (rule c7)
    done
qed

theorem save_statistics_summary_witness:
  "length (lanes \<lparr>name = ''Main_1'',
      lanes = [\<lparr>vehicles = 0, total_wait_secs = 0, vehicles_served = 2\<rparr>,
               \<lparr>vehicles = 0, total_wait_secs = 0, vehicles_served = 0\<rparr>,
               \<lparr>vehicles = 0, total_wait_secs = 70, vehicles_served = 5\<rparr>,
               \<lparr>vehicles = 0, total_wait_secs = 29, vehicles_served = 1\<rparr>],
      cycles = 1\<rparr>) = LANES \<and>
   save_statistics True \<lparr>name = ''Main_1'',
      lanes = [\<lparr>vehicles = 0, total_wait_secs = 0, vehicles_served = 2\<rparr>,
               \<lparr>vehicles = 0, total_wait_secs = 0, vehicles_served = 0\<rparr>,
               \<lparr>vehicles = 0, total_wait_secs = 70, vehicles_served = 5\<rparr>,
               \<lparr>vehicles = 0, total_wait_secs = 29, vehicles_served = 1\<rparr>],
      cycles = 1\<rparr>
     = Some \<lparr>cycles_run = 1, total_served = 8, total_wait_secs_sum = 99,
             avg_wait_per_vehicle = (6966505673588736, - 49)\<rparr> \<and>
   0 <s (8 :: c_long) \<and> sint (8 :: c_long) < 2 ^ 53 \<and> \<bar>sint (99 :: c_long)\<bar> < 2 ^ 53 \<and>
   \<bar>sint (99 :: c_long)\<bar> < 2 ^ 24 * sint (8 :: c_long) \<and>
   \<bar>double_value (6966505673588736, - 49) - 99 / 8\<bar> \<le> 1 / 10 ^ 9 \<and>
   double_value (6966505673588736, - 49) = 99 / 8"
proof -
  let ?st = "\<lparr>name = ''Main_1'',
      lanes = [\<lparr>vehicles = 0, total_wait_secs = 0, vehicles_served = 2\<rparr>,
               \<lparr>vehicles = 0, total_wait_secs = 0, vehicles_served = 0\<rparr>,
               \<lparr>vehicles = 0, total_wait_secs = 70, vehicles_served = 5\<rparr>,
               \<lparr>vehicles = 0, total_wait_secs = 29, vehicles_served = (1 :: c_long)\<rparr>],
      cycles = (1 :: c_int)\<rparr>"
  let ?s = "\<lparr>cycles_run = 1, total_served = 8, total_wait_secs_sum = 99,
             avg_wait_per_vehicle = (6966505673588736, - 49)\<rparr>"
  have h: "length (lanes ?st) = LANES"
    by (simp add: LANES_def)
  have r: "save_statistics True ?st = Some ?s"
    by code_simp
  have g: "0 <s (8 :: c_long)" "sint (8 :: c_long) < 2 ^ 53" "\<bar>sint (99 :: c_long)\<bar> < 2 ^ 53"
    "\<bar>sint (99 :: c_long)\<bar> < 2 ^ 24 * sint (8 :: c_long)"
    by (simp_all add: word_sless_alt)
  from save_statistics_summary [OF h] r g
  have "\<bar>double_value (6966505673588736, - 49) - 99 / 8\<bar> \<le> 1 / 10 ^ 9"
    by auto
  moreover have "double_value (6966505673588736, - 49) = 99 / 8"
    by (simp add: double_value_def)
  ultimately show ?thesis
    using h r g by simp
qed

text \<open>
  C5 as stated fails in two ways.  With 3 vehicles served and \<open>2 ^ 53 + 1\<close>
  wait-seconds the conversion to \<open>double\<close> drops the last bit and the average is
  3002399751580330.5, half a second from the exact quotient 3002399751580331.  With
  \<open>LONG_MAX\<close> and 1 vehicles served in two lanes the sum wraps to a negative number
  and the average is \<open>0.0\<close>, although the integer sum is positive.
\<close>

theorem save_statistics_rounding:
  "save_statistics True \<lparr>name = ''Main_1'',
      lanes = [\<lparr>vehicles = 0, total_wait_secs = 9007199254740993, vehicles_served = 3\<rparr>,
               \<lparr>vehicles = 0, total_wait_secs = 0, vehicles_served = 0\<rparr>,
               \<lparr>vehicles = 0, total_wait_secs = 0, vehicles_served = 0\<rparr>,
               \<lparr>vehicles = 0, total_wait_secs = 0, vehicles_served = 0\<rparr>],
      cycles = 1\<rparr>
     = Some \<lparr>cycles_run = 1, total_served = 3, total_wait_secs_sum = 9007199254740993,
             avg_wait_per_vehicle = (6004799503160661, - 1)\<rparr> \<and>
   0 <s (3 :: c_long) \<and>
   \<bar>double_value (6004799503160661, - 1) - 9007199254740993 / 3\<bar> = 1 / 2 \<and>
   \<not> \<bar>double_value (6004799503160661, - 1) - 9007199254740993 / 3\<bar> \<le> 1 / 10 ^ 9 \<and>
   save_statistics True \<lparr>name = ''Main_1'',
      lanes = [\<lparr>vehicles = 0, total_wait_secs = 100, vehicles_served = 9223372036854775807\<rparr>,
               \<lparr>vehicles = 0, total_wait_secs = 0, vehicles_served = 1\<rparr>,
               \<lparr>vehicles = 0, total_wait_secs = 0, vehicles_served = 0\<rparr>,
               \<lparr>vehicles = 0, total_wait_secs = 0, vehicles_served = 0\<rparr>],
      cycles = 1\<rparr>
     = Some \<lparr>cycles_run = 1, total_served = - 9223372036854775808, total_wait_secs_sum = 100,
             avg_wait_per_vehicle = (0, 0)\<rparr> \<and>
   sint (9223372036854775807 :: c_long) + sint (1 :: c_long) + sint (0 :: c_long) + sint (0 :: c_long)
     = 9223372036854775808"
proof -
  have a: "save_statistics True \<lparr>name = ''Main_1'',
      lanes = [\<lparr>vehicles = 0, total_wait_secs = 9007199254740993, vehicles_served = 3\<rparr>,
               \<lparr>vehicles = 0, total_wait_secs = 0, vehicles_served = 0\<rparr>,
               \<lparr>vehicles = 0, total_wait_secs = 0, vehicles_served = 0\<rparr>,
               \<lparr>vehicles = 0, total_wait_secs = 0, vehicles_served = 0\<rparr>],
      cycles = 1\<rparr>
     = Some \<lparr>cycles_run = 1, total_served = 3, total_wait_secs_sum = 9007199254740993,
             avg_wait_per_vehicle = (6004799503160661, - 1)\<rparr>"
    by code_simp
  have b: "save_statistics True \<lparr>name = ''Main_1'',
      lanes = [\<lparr>vehicles = 0, total_wait_secs = 100, vehicles_served = 9223372036854775807\<rparr>,
               \<lparr>vehicles = 0, total_wait_secs = 0, vehicles_served = 1\<rparr>,
               \<lparr>vehicles = 0, total_wait_secs = 0, vehicles_served = 0\<rparr>,
               \<lparr>vehicles = 0, total_wait_secs = 0, vehicles_served = 0\<rparr>],
      cycles = 1\<rparr>
     = Some \<lparr>cycles_run = 1, total_served = - 9223372036854775808, total_wait_secs_sum = 100,
             avg_wait_per_vehicle = (0, 0)\<rparr>"
    by code_simp
  have c: "\<bar>double_value (6004799503160661, - 1) - 9007199254740993 / 3\<bar> = 1 / 2"
    by (simp add: double_value_def)
  have d: "0 <s (3 :: c_long)"
    by (simp add: word_sless_alt)
  have e: "sint (9223372036854775807 :: c_long) + sint (1 :: c_long) + sint (0 :: c_long)
             + sint (0 :: c_long) = 9223372036854775808"
    by simp
  from a b c d e show ?thesis
    by (simp only:) simp
qed

end
